theory Spec2Isabelle
  imports Complex_Main
begin

section \<open>Signal lifecycle and trigger state machine of the AI trading server\<close>

text \<open>
  The development embeds the signal and trigger bookkeeping of
  \<^verbatim>\<open>mql5_ai_server_v2_3_claude.py\<close>.  Conventions of the embedding:
  \<^item> prices and pip values are Python floats in the source; they are modelled as exact
    real numbers, so the theorems speak about the arithmetic the code writes down and not
    about binary rounding error;
  \<^item> an SQLite table is the list of its rows in insertion order; a nullable column is an
    \<open>option\<close>;
  \<^item> wall-clock timestamps (\<^verbatim>\<open>datetime.now()\<close>) are integers counting seconds of local
    time, and the current time is a parameter of every function that reads the clock, one
    reading for a whole pass of a loop;
  \<^item> the price feed and the model call are parameters;
  \<^item> notifications and log lines are left out, and so are failures of the database
    connection itself.
\<close>

subsection \<open>Strings\<close>

text \<open>\<^verbatim>\<open>str.upper()\<close> on the ASCII letters; other bytes are left as they are.\<close>

definition upper_char :: "char \<Rightarrow> char" where
  "upper_char c =
     (let n = (of_char c :: nat) in if 97 \<le> n \<and> n \<le> 122 then char_of (n - 32) else c)"

definition upper :: "string \<Rightarrow> string" where
  "upper s = map upper_char s"

fun starts_with :: "string \<Rightarrow> string \<Rightarrow> bool" where
  "starts_with [] s = True"
| "starts_with (p # ps) [] = False"
| "starts_with (p # ps) (c # cs) = (p = c \<and> starts_with ps cs)"

text \<open>Python's \<^verbatim>\<open>sub in s\<close> for strings: \<open>sub\<close> occurs as a contiguous substring.\<close>

fun str_in :: "string \<Rightarrow> string \<Rightarrow> bool" where
  "str_in sub [] = (sub = [])"
| "str_in sub (c # cs) = (starts_with sub (c # cs) \<or> str_in sub cs)"

subsection \<open>Pip arithmetic\<close>

definition gold_terms :: "string list" where
  "gold_terms = [''XAU'', ''GOLD'', ''GC'']"

definition jpy_pairs :: "string list" where
  "jpy_pairs = [''JPY'', ''USDJPY'', ''EURJPY'', ''GBPJPY'', ''AUDJPY'']"

definition get_pip_multiplier :: "string \<Rightarrow> int" where
  "get_pip_multiplier symbol =
     (let symbol = upper symbol in
      if list_ex (\<lambda>gold_term. str_in gold_term symbol) gold_terms then 10
      else if list_ex (\<lambda>jpy_pair. str_in jpy_pair symbol) jpy_pairs then 100
      else 10000)"

text \<open>
  \<^verbatim>\<open>round(x, 1)\<close>: the nearest multiple of one tenth, a tie going to the even
  tenth (Python rounds half to even).
\<close>

definition round_half_even :: "real \<Rightarrow> int" where
  "round_half_even y =
     (let f = \<lfloor>y\<rfloor>; d = y - of_int f in
      if d < 1 / 2 then f
      else if 1 / 2 < d then f + 1
      else if even f then f else f + 1)"

definition py_round1 :: "real \<Rightarrow> real" where
  "py_round1 x = of_int (round_half_even (x * 10)) / 10"

definition calculate_pips :: "real \<Rightarrow> real \<Rightarrow> string \<Rightarrow> string \<Rightarrow> real" where
  "calculate_pips entry_price exit_price symbol decision =
     (let pip_multiplier = get_pip_multiplier symbol in
      if decision = ''BUY'' then py_round1 ((exit_price - entry_price) * of_int pip_multiplier)
      else if decision = ''SELL'' then py_round1 ((entry_price - exit_price) * of_int pip_multiplier)
      else 0)"

subsection \<open>Breakeven impact\<close>

text \<open>
  Python truthiness of the values the code tests with \<^verbatim>\<open>not x\<close>: an integer column is
  false when it is NULL or 0, a text value when it is NULL or empty.  A price is false
  when it is None or 0.0; the loops below write that test out.
\<close>

definition truthy_int :: "int option \<Rightarrow> bool" where
  "truthy_int v = (case v of None \<Rightarrow> False | Some n \<Rightarrow> n \<noteq> 0)"

definition truthy_str :: "string option \<Rightarrow> bool" where
  "truthy_str v = (case v of None \<Rightarrow> False | Some s \<Rightarrow> s \<noteq> [])"

definition calculate_breakeven_impact ::
  "string option \<Rightarrow> string option \<Rightarrow> real \<Rightarrow> real \<Rightarrow> int option \<Rightarrow> string" where
  "calculate_breakeven_impact actual_result hypothetical_result actual_pnl hypothetical_pnl
       breakeven_used =
     (if \<not> truthy_int breakeven_used then ''NO_BREAKEVEN_USED''
      else if \<not> truthy_str hypothetical_result then ''NO_IMPACT''
      else if actual_result = Some ''BREAKEVEN'' \<and> hypothetical_result = Some ''LOSS''
        then ''SAVED_LOSS''
      else if actual_result = Some ''BREAKEVEN'' \<and> hypothetical_result = Some ''WIN''
        then ''MISSED_PROFIT''
      else if actual_result = Some ''WIN'' \<and> hypothetical_result = Some ''WIN''
        then (if actual_pnl < hypothetical_pnl then ''REDUCED_PROFIT'' else ''NO_IMPACT'')
      else ''NO_IMPACT'')"


subsection \<open>The signals table\<close>

text \<open>
  One row of \<^verbatim>\<open>signals\<close>.  The narrative columns (confidence, risk_reward, reasoning,
  market_structure, invalidation_criteria, screenshot_path, notes) take part in no
  decision and are left out.  \<^verbatim>\<open>stop_modifications\<close> holds a JSON array; NULL and the
  empty array are both the empty list.  The price plan of a stored BUY or SELL signal is
  numeric: \<^verbatim>\<open>parse_ai_response\<close> turns a decision with a missing entry, sl or tp into
  WAIT before anything is stored.
\<close>

record modification =
  mod_timestamp :: int
  mod_type :: string
  mod_trigger_price :: real
  mod_new_stop_loss :: real
  mod_reason :: string

record signal =
  signal_id :: nat
  sig_timestamp :: int
  sig_symbol :: string
  sig_decision :: string
  entry_price :: real
  stop_loss :: real
  take_profit :: real
  sig_status :: string
  sig_result :: "string option"
  exit_price :: "real option"
  exit_timestamp :: "int option"
  pnl_pips :: "real option"
  duration_minutes :: "int option"
  original_stop_loss :: "real option"
  current_stop_loss :: "real option"
  breakeven_triggered :: "int option"
  breakeven_timestamp :: "int option"
  stop_modifications :: "modification list"
  hypothetical_exit_price :: "real option"
  hypothetical_result :: "string option"
  hypothetical_pnl_pips :: "real option"
  breakeven_impact :: "string option"

record signal_data =
  sd_symbol :: string
  sd_decision :: string
  sd_entry :: real
  sd_sl :: real
  sd_tp :: real

text \<open>\<^verbatim>\<open>INTEGER PRIMARY KEY AUTOINCREMENT\<close>: one more than the largest id in use.\<close>

definition next_signal_id :: "signal list \<Rightarrow> nat" where
  "next_signal_id db = Suc (fold max (map signal_id db) 0)"

text \<open>\<^verbatim>\<open>SELECT ... FROM signals WHERE id = ?\<close> followed by \<^verbatim>\<open>fetchone()\<close>.\<close>

definition get_signal :: "signal list \<Rightarrow> nat \<Rightarrow> signal option" where
  "get_signal db i = find (\<lambda>r. signal_id r = i) db"

text \<open>\<^verbatim>\<open>UPDATE signals SET ... WHERE id = ?\<close>.\<close>

definition update_signal :: "nat \<Rightarrow> (signal \<Rightarrow> signal) \<Rightarrow> signal list \<Rightarrow> signal list" where
  "update_signal i f db = map (\<lambda>r. if signal_id r = i then f r else r) db"

text \<open>The row \<^verbatim>\<open>save_signal_to_db\<close> inserts; the other columns take their defaults.\<close>

definition new_signal :: "nat \<Rightarrow> int \<Rightarrow> signal_data \<Rightarrow> signal" where
  "new_signal new_id now sd =
     \<lparr> signal_id = new_id, sig_timestamp = now, sig_symbol = sd_symbol sd,
       sig_decision = sd_decision sd, entry_price = sd_entry sd,
       stop_loss = sd_sl sd, take_profit = sd_tp sd,
       sig_status = ''ACTIVE'', sig_result = None, exit_price = None,
       exit_timestamp = None, pnl_pips = None, duration_minutes = None,
       original_stop_loss = Some (sd_sl sd), current_stop_loss = Some (sd_sl sd),
       breakeven_triggered = Some 0, breakeven_timestamp = None,
       stop_modifications = [], hypothetical_exit_price = None,
       hypothetical_result = None, hypothetical_pnl_pips = None,
       breakeven_impact = None \<rparr>"

definition save_signal_to_db :: "int \<Rightarrow> signal_data \<Rightarrow> signal list \<Rightarrow> nat \<times> signal list" where
  "save_signal_to_db now sd db =
     (let new_id = next_signal_id db in (new_id, db @ [new_signal new_id now sd]))"

text \<open>A price feed that quotes one symbol only.\<close>

definition single_feed :: "string \<Rightarrow> real \<Rightarrow> string \<Rightarrow> real option" where
  "single_feed quoted p s = (if s = quoted then Some p else None)"

subsection \<open>Breakeven engine\<close>

definition update_stop_loss_to_breakeven ::
  "int \<Rightarrow> nat \<Rightarrow> real \<Rightarrow> real \<Rightarrow> signal list \<Rightarrow> signal list" where
  "update_stop_loss_to_breakeven now sid new_stop_loss trigger_price db =
     (case get_signal db sid of
        None \<Rightarrow> db
      | Some signal_row \<Rightarrow>
          (let modification = \<lparr> mod_timestamp = now, mod_type = ''BREAKEVEN'',
                                 mod_trigger_price = trigger_price,
                                 mod_new_stop_loss = new_stop_loss,
                                 mod_reason = ''Moved to breakeven at 1:1 R/R'' \<rparr>;
               modifications = stop_modifications signal_row @ [modification]
           in update_signal sid
                (\<lambda>r. r\<lparr> current_stop_loss := Some new_stop_loss,
                         breakeven_triggered := Some 1,
                         breakeven_timestamp := Some now,
                         stop_modifications := modifications \<rparr>) db))"

text \<open>
  The price at which the stop moves to entry, as \<^verbatim>\<open>check_breakeven_conditions\<close> computes
  it from the row's \<^verbatim>\<open>stop_loss\<close> column: the risk distance is a signed difference.
\<close>

definition breakeven_price :: "string \<Rightarrow> real \<Rightarrow> real \<Rightarrow> real" where
  "breakeven_price decision entry original_sl =
     (if decision = ''BUY'' then (let risk_distance = entry - original_sl in entry + risk_distance)
      else (let risk_distance = original_sl - entry in entry - risk_distance))"

text \<open>The rows the breakeven pass selects.\<close>

definition breakeven_candidate :: "signal \<Rightarrow> bool" where
  "breakeven_candidate s \<longleftrightarrow>
     sig_status s = ''ACTIVE'' \<and> (sig_decision s = ''BUY'' \<or> sig_decision s = ''SELL'')
     \<and> breakeven_triggered s = Some 0"

text \<open>One iteration of the loop; \<open>feed\<close> is \<^verbatim>\<open>get_current_price\<close>.\<close>

definition breakeven_step ::
  "int \<Rightarrow> (string \<Rightarrow> real option) \<Rightarrow> signal \<Rightarrow> signal list \<Rightarrow> signal list" where
  "breakeven_step now feed s db =
     (case feed (sig_symbol s) of
        None \<Rightarrow> db
      | Some current_price \<Rightarrow>
          if current_price = 0 then db
          else if sig_decision s = ''BUY'' then
            (if current_price \<ge> breakeven_price ''BUY'' (entry_price s) (stop_loss s)
             then update_stop_loss_to_breakeven now (signal_id s) (entry_price s) current_price db
             else db)
          else if sig_decision s = ''SELL'' then
            (if current_price \<le> breakeven_price ''SELL'' (entry_price s) (stop_loss s)
             then update_stop_loss_to_breakeven now (signal_id s) (entry_price s) current_price db
             else db)
          else db)"

definition check_breakeven_conditions ::
  "int \<Rightarrow> (string \<Rightarrow> real option) \<Rightarrow> signal list \<Rightarrow> signal list" where
  "check_breakeven_conditions now feed db =
     fold (breakeven_step now feed) (filter breakeven_candidate db) db"

subsection \<open>Outcome engine\<close>

text \<open>\<^verbatim>\<open>int(seconds / 60)\<close>: truncation towards zero.\<close>

definition minutes_between :: "int \<Rightarrow> int \<Rightarrow> int" where
  "minutes_between start now =
     (if start \<le> now then (now - start) div 60 else - ((start - now) div 60))"

definition update_signal_with_hypothetical ::
  "int \<Rightarrow> nat \<Rightarrow> string \<Rightarrow> real \<Rightarrow> real \<Rightarrow> string option \<Rightarrow> real option \<Rightarrow> real \<Rightarrow> string
     \<Rightarrow> signal list \<Rightarrow> signal list" where
  "update_signal_with_hypothetical now sid actual_result actual_exit actual_pnl
       hyp_result hyp_exit hyp_pnl impact db =
     (case get_signal db sid of
        None \<Rightarrow> db
      | Some signal_row \<Rightarrow>
          (let duration = minutes_between (sig_timestamp signal_row) now
           in update_signal sid
                (\<lambda>r. r\<lparr> sig_status := ''CLOSED'',
                         sig_result := Some actual_result,
                         exit_price := Some actual_exit,
                         exit_timestamp := Some now,
                         pnl_pips := Some actual_pnl,
                         duration_minutes := Some duration,
                         hypothetical_exit_price := hyp_exit,
                         hypothetical_result := hyp_result,
                         hypothetical_pnl_pips := Some hyp_pnl,
                         breakeven_impact := Some impact \<rparr>) db))"

text \<open>
  The two exit simulations of \<^verbatim>\<open>check_active_signals\<close>.  Each yields the result
  together with the exit price, or nothing when no exit condition fires.
\<close>

definition actual_outcome ::
  "string \<Rightarrow> real \<Rightarrow> real \<Rightarrow> real \<Rightarrow> real \<Rightarrow> (string \<times> real) option" where
  "actual_outcome decision entry effective_sl tp current_price =
     (if decision = ''BUY'' then
        (if current_price \<ge> tp then Some (''WIN'', tp)
         else if current_price \<le> effective_sl
           then Some (if effective_sl = entry then ''BREAKEVEN'' else ''LOSS'', effective_sl)
         else None)
      else if decision = ''SELL'' then
        (if current_price \<le> tp then Some (''WIN'', tp)
         else if current_price \<ge> effective_sl
           then Some (if effective_sl = entry then ''BREAKEVEN'' else ''LOSS'', effective_sl)
         else None)
      else None)"

definition hypothetical_outcome ::
  "string \<Rightarrow> real \<Rightarrow> real \<Rightarrow> real \<Rightarrow> (string \<times> real) option" where
  "hypothetical_outcome decision original_sl tp current_price =
     (if decision = ''BUY'' then
        (if current_price \<ge> tp then Some (''WIN'', tp)
         else if current_price \<le> original_sl then Some (''LOSS'', original_sl)
         else None)
      else if decision = ''SELL'' then
        (if current_price \<le> tp then Some (''WIN'', tp)
         else if current_price \<ge> original_sl then Some (''LOSS'', original_sl)
         else None)
      else None)"

text \<open>\<^verbatim>\<open>COALESCE(current_stop_loss, stop_loss)\<close>.\<close>

definition effective_sl :: "signal \<Rightarrow> real" where
  "effective_sl s = (case current_stop_loss s of None \<Rightarrow> stop_loss s | Some c \<Rightarrow> c)"

definition active_trade :: "signal \<Rightarrow> bool" where
  "active_trade s \<longleftrightarrow>
     sig_status s = ''ACTIVE'' \<and> (sig_decision s = ''BUY'' \<or> sig_decision s = ''SELL'')"

text \<open>
  One iteration of the closing loop.  The hypothetical pnl is computed only when the
  hypothetical exit price is truthy (a float other than 0.0) and is 0 otherwise.
\<close>

definition outcome_step ::
  "int \<Rightarrow> (string \<Rightarrow> real option) \<Rightarrow> signal \<Rightarrow> signal list \<Rightarrow> signal list" where
  "outcome_step now feed s db =
     (case feed (sig_symbol s) of
        None \<Rightarrow> db
      | Some current_price \<Rightarrow>
          if current_price = 0 then db
          else
            (case actual_outcome (sig_decision s) (entry_price s) (effective_sl s)
                    (take_profit s) current_price of
               None \<Rightarrow> db
             | Some (actual_result, actual_exit_price) \<Rightarrow>
                 (let hyp = hypothetical_outcome (sig_decision s) (stop_loss s)
                              (take_profit s) current_price;
                      hyp_result = map_option fst hyp;
                      hyp_exit_price = map_option snd hyp;
                      actual_pnl = calculate_pips (entry_price s) actual_exit_price
                                     (sig_symbol s) (sig_decision s);
                      hyp_pnl =
                        (case hyp of
                           None \<Rightarrow> 0
                         | Some (hr, he) \<Rightarrow>
                             if he \<noteq> 0
                             then calculate_pips (entry_price s) he (sig_symbol s) (sig_decision s)
                             else 0);
                      impact = calculate_breakeven_impact (Some actual_result)
                                 hyp_result actual_pnl hyp_pnl
                                 (breakeven_triggered s)
                  in update_signal_with_hypothetical now (signal_id s) actual_result
                       actual_exit_price actual_pnl hyp_result
                       hyp_exit_price hyp_pnl impact db)))"

text \<open>The closing loop over the rows selected after the breakeven pass.\<close>

definition check_exits ::
  "int \<Rightarrow> (string \<Rightarrow> real option) \<Rightarrow> signal list \<Rightarrow> signal list" where
  "check_exits now feed db = fold (outcome_step now feed) (filter active_trade db) db"

definition check_active_signals ::
  "int \<Rightarrow> (string \<Rightarrow> real option) \<Rightarrow> signal list \<Rightarrow> signal list" where
  "check_active_signals now feed db = check_exits now feed (check_breakeven_conditions now feed db)"


subsection \<open>Admission: the daily win cap\<close>

text \<open>
  \<^verbatim>\<open>today_start\<close> and \<^verbatim>\<open>today_end\<close> are the first and the last instant of the current
  day.  The query of \<^verbatim>\<open>get_daily_net_wins\<close> selects the CLOSED rows whose creation
  \<^verbatim>\<open>timestamp\<close> lies between them.
\<close>

definition today_start :: "int \<Rightarrow> int" where
  "today_start now = now - now mod 86400"

definition today_end :: "int \<Rightarrow> int" where
  "today_end now = today_start now + 86399"

definition closed_today :: "int \<Rightarrow> signal \<Rightarrow> bool" where
  "closed_today now s \<longleftrightarrow>
     sig_status s = ''CLOSED'' \<and> today_start now \<le> sig_timestamp s
     \<and> sig_timestamp s \<le> today_end now"

record daily_stats =
  net_wins :: int
  wins :: int
  losses :: int
  total_trades :: int

definition get_daily_net_wins :: "int \<Rightarrow> signal list \<Rightarrow> daily_stats" where
  "get_daily_net_wins now db =
     (let rows = filter (closed_today now) db;
          w = sum_list (map (\<lambda>s. if sig_result s = Some ''WIN'' then 1 else 0) rows);
          l = sum_list (map (\<lambda>s. if sig_result s = Some ''LOSS'' then 1 else 0) rows);
          n = int (length rows)
      in \<lparr> net_wins = w - l, wins = w, losses = l, total_trades = n \<rparr>)"

record risky_report =
  risky_count :: nat
  risky_trades :: "signal list"

definition get_risky_active_trades :: "signal list \<Rightarrow> risky_report" where
  "get_risky_active_trades db =
     (let rows = filter (\<lambda>s. sig_status s = ''ACTIVE''
                              \<and> (breakeven_triggered s = Some 0 \<or> breakeven_triggered s = None)) db
      in \<lparr> risky_count = length rows, risky_trades = rows \<rparr>)"

definition is_daily_analysis_allowed :: "int \<Rightarrow> signal list \<Rightarrow> bool" where
  "is_daily_analysis_allowed now db =
     (let stats = get_daily_net_wins now db;
          risky = get_risky_active_trades db;
          daily_limit = 3
      in if net_wins stats \<ge> daily_limit \<and> risky_count risky = 0 then False
         else if net_wins stats \<ge> daily_limit \<and> risky_count risky > 0 then True
         else True)"

text \<open>
  A row as the closing update leaves it, for the samples: closed with a result at a given
  time.
\<close>

definition closed_with :: "string \<Rightarrow> int \<Rightarrow> signal \<Rightarrow> signal" where
  "closed_with res closed_at s =
     s\<lparr> sig_status := ''CLOSED'', sig_result := Some res, exit_timestamp := Some closed_at \<rparr>"

subsection \<open>The passes read row by row\<close>

text \<open>
  What one loop iteration for the selected row \<open>a\<close> does to a stored row \<open>r\<close> with the
  same id.  These functions are the right-hand sides of the lemmas that turn each loop over
  the table into a map over its rows; the loops above are the model of the code.
\<close>

definition moved_to_breakeven :: "int \<Rightarrow> real \<Rightarrow> real \<Rightarrow> signal \<Rightarrow> signal" where
  "moved_to_breakeven now new_stop_loss trigger_price r =
     r\<lparr> current_stop_loss := Some new_stop_loss,
        breakeven_triggered := Some 1,
        breakeven_timestamp := Some now,
        stop_modifications := stop_modifications r @
          [\<lparr> mod_timestamp = now, mod_type = ''BREAKEVEN'',
             mod_trigger_price = trigger_price, mod_new_stop_loss = new_stop_loss,
             mod_reason = ''Moved to breakeven at 1:1 R/R'' \<rparr>] \<rparr>"

definition breakeven_row ::
  "int \<Rightarrow> (string \<Rightarrow> real option) \<Rightarrow> signal \<Rightarrow> signal \<Rightarrow> signal" where
  "breakeven_row now feed a r =
     (case feed (sig_symbol a) of
        None \<Rightarrow> r
      | Some p \<Rightarrow>
          if p \<noteq> 0 \<and>
             (sig_decision a = ''BUY'' \<and> p \<ge> breakeven_price ''BUY'' (entry_price a) (stop_loss a)
              \<or> sig_decision a = ''SELL''
                 \<and> p \<le> breakeven_price ''SELL'' (entry_price a) (stop_loss a))
          then moved_to_breakeven now (entry_price a) p r
          else r)"

definition closed_row ::
  "int \<Rightarrow> string \<Rightarrow> real \<Rightarrow> real \<Rightarrow> string option \<Rightarrow> real option \<Rightarrow> real \<Rightarrow> string
     \<Rightarrow> signal \<Rightarrow> signal" where
  "closed_row now actual_result actual_exit actual_pnl hyp_result hyp_exit hyp_pnl impact r =
     r\<lparr> sig_status := ''CLOSED'',
        sig_result := Some actual_result,
        exit_price := Some actual_exit,
        exit_timestamp := Some now,
        pnl_pips := Some actual_pnl,
        duration_minutes := Some (minutes_between (sig_timestamp r) now),
        hypothetical_exit_price := hyp_exit,
        hypothetical_result := hyp_result,
        hypothetical_pnl_pips := Some hyp_pnl,
        breakeven_impact := Some impact \<rparr>"

definition outcome_row ::
  "int \<Rightarrow> (string \<Rightarrow> real option) \<Rightarrow> signal \<Rightarrow> signal \<Rightarrow> signal" where
  "outcome_row now feed a r =
     (case feed (sig_symbol a) of
        None \<Rightarrow> r
      | Some p \<Rightarrow>
          if p = 0 then r
          else
            (case actual_outcome (sig_decision a) (entry_price a) (effective_sl a)
                    (take_profit a) p of
               None \<Rightarrow> r
             | Some (actual_result, actual_exit) \<Rightarrow>
                 (let hyp = hypothetical_outcome (sig_decision a) (stop_loss a) (take_profit a) p;
                      actual_pnl = calculate_pips (entry_price a) actual_exit
                                     (sig_symbol a) (sig_decision a);
                      hyp_pnl =
                        (case hyp of
                           None \<Rightarrow> 0
                         | Some (hr, he) \<Rightarrow>
                             if he \<noteq> 0
                             then calculate_pips (entry_price a) he (sig_symbol a) (sig_decision a)
                             else 0)
                  in closed_row now actual_result actual_exit actual_pnl
                       (map_option fst hyp) (map_option snd hyp) hyp_pnl
                       (calculate_breakeven_impact (Some actual_result) (map_option fst hyp)
                          actual_pnl hyp_pnl (breakeven_triggered a))
                       r)))"


text \<open>
  A run of breakeven passes, one clock reading and one price feed for each cycle of the
  worker.
\<close>

definition breakeven_passes ::
  "(int \<times> (string \<Rightarrow> real option)) list \<Rightarrow> signal list \<Rightarrow> signal list" where
  "breakeven_passes cycles db =
     fold (\<lambda>cycle. check_breakeven_conditions (fst cycle) (snd cycle)) cycles db"

text \<open>
  The price plan of \<open>sd\<close> as a stored row keeps it: the stop written at creation, entry and
  target are those of \<open>sd\<close>, and the current stop is the creation stop while the breakeven
  flag is 0 and the entry once it is 1.
\<close>

definition plan_kept :: "signal_data \<Rightarrow> signal \<Rightarrow> bool" where
  "plan_kept sd r \<longleftrightarrow>
     original_stop_loss r = Some (sd_sl sd) \<and> stop_loss r = sd_sl sd
     \<and> entry_price r = sd_entry sd \<and> take_profit r = sd_tp sd
     \<and> (breakeven_triggered r = Some 0 \<and> current_stop_loss r = Some (sd_sl sd)
        \<or> breakeven_triggered r = Some 1 \<and> current_stop_loss r = Some (sd_entry sd))"

subsection \<open>The triggers table\<close>

text \<open>
  The \<^verbatim>\<open>next_trigger\<close> object of a model answer.  A key that the object lacks is
  \<open>None\<close>; a key that is present holds a value of the type the prompt's schema gives it (text
  for type, timeframe and direction, a number for level, an integer for expiry_bars).
  The description and the confirmation-bar count are never read and are left out.
\<close>

record next_trigger =
  nt_type :: "string option"
  nt_timeframe :: "string option"
  nt_level :: "real option"
  nt_direction :: "string option"
  nt_expiry_bars :: "int option"

text \<open>The fields of a parsed model answer that the trigger code reads.\<close>

record analysis =
  an_decision :: "string option"
  an_next_trigger :: "next_trigger option"
  an_playbook :: "string option"

text \<open>
  The explanation \<^verbatim>\<open>eval_trigger\<close> returns beside its verdict, with the price and the
  level it prints, and the free text \<^verbatim>\<open>clear_pending_triggers\<close> stores in the same column.
\<close>

datatype fire_reason =
    NoPriceData
  | PriceAbove real real
  | PriceBelow real real
  | RetestBullish real real
  | RetestBearish real real
  | NearSupport real real
  | NearResistance real real
  | TouchingEMA real real
  | ConditionNotMet real real
  | EvalError
  | ReasonText string

text \<open>
  One row of \<^verbatim>\<open>triggers\<close>; the cached H4 context is left out.  The daily counters of
  \<^verbatim>\<open>trigger_stats\<close> are a separate table that no decision reads and are not modelled.
\<close>

record trigger_row =
  trigger_id :: nat
  trg_symbol :: string
  trg_created_at :: int
  trigger_json :: next_trigger
  trg_playbook :: string
  trg_setup_type :: "string option"
  expiry_ts :: int
  trg_status :: string
  consumed_at :: "int option"
  trg_result :: "string option"
  trg_fire_reason :: "fire_reason option"

definition next_trigger_id :: "trigger_row list \<Rightarrow> nat" where
  "next_trigger_id db = Suc (fold max (map trigger_id db) 0)"

text \<open>\<^verbatim>\<open>{'M15': 15, 'M30': 30, 'H1': 60, 'H4': 240}.get(timeframe, 15)\<close>.\<close>

definition tf_minutes :: "string \<Rightarrow> int" where
  "tf_minutes timeframe =
     (case map_of [(''M15'', 15), (''M30'', 30), (''H1'', 60), (''H4'', 240)] timeframe of
        None \<Rightarrow> 15 | Some m \<Rightarrow> m)"

text \<open>\<^verbatim>\<open>UPDATE triggers SET status='SUPERSEDED', consumed_at=? WHERE symbol=? AND status='PENDING'\<close>.\<close>

definition supersede :: "int \<Rightarrow> string \<Rightarrow> trigger_row \<Rightarrow> trigger_row" where
  "supersede now symbol r =
     (if trg_symbol r = symbol \<and> trg_status r = ''PENDING''
      then r\<lparr> trg_status := ''SUPERSEDED'', consumed_at := Some now \<rparr> else r)"

text \<open>
  \<^verbatim>\<open>save_trigger\<close> returns whether a trigger was saved; the table is returned beside it.
  \<^verbatim>\<open>timedelta(minutes=m)\<close> is \<open>60 * m\<close> seconds.  Two clocks meet in the new row: the
  expiry is computed from \<^verbatim>\<open>datetime.now()\<close>, the local wall clock \<open>now\<close>, while the
  INSERT leaves \<^verbatim>\<open>created_at\<close> to its default \<^verbatim>\<open>CURRENT_TIMESTAMP\<close>, which SQLite takes in
  UTC.  \<open>utc_offset\<close> is the local time minus UTC, in seconds.
\<close>

definition save_trigger ::
  "int \<Rightarrow> int \<Rightarrow> string \<Rightarrow> analysis \<Rightarrow> trigger_row list \<Rightarrow> bool \<times> trigger_row list" where
  "save_trigger utc_offset now symbol a db =
     (if an_decision a \<noteq> Some ''WAIT'' then (False, db)
      else case an_next_trigger a of
        None \<Rightarrow> (False, db)
      | Some nt \<Rightarrow>
          if nt_type nt = Some ''none'' then (False, db)
          else if nt_type nt = None \<or> nt_timeframe nt = None \<or> nt_level nt = None
                  \<or> nt_direction nt = None then (False, db)
          else
            (let db1 = map (supersede now symbol) db;
                 expiry_bars = (case nt_expiry_bars nt of None \<Rightarrow> 8 | Some n \<Rightarrow> n);
                 timeframe = (case nt_timeframe nt of None \<Rightarrow> ''M15'' | Some tf \<Rightarrow> tf);
                 minutes = tf_minutes timeframe * expiry_bars;
                 expiry = now + 60 * minutes
             in (True,
                 db1 @ [\<lparr> trigger_id = next_trigger_id db, trg_symbol = symbol,
                          trg_created_at = now - utc_offset, trigger_json = nt,
                          trg_playbook = (case an_playbook a of None \<Rightarrow> ''unknown'' | Some pb \<Rightarrow> pb),
                          trg_setup_type = nt_type nt, expiry_ts = expiry,
                          trg_status = ''PENDING'', consumed_at = None, trg_result = None,
                          trg_fire_reason = None \<rparr>])))"

definition clear_row :: "int \<Rightarrow> string \<Rightarrow> string \<Rightarrow> trigger_row \<Rightarrow> trigger_row" where
  "clear_row now symbol reason r =
     (if trg_symbol r = symbol \<and> trg_status r = ''PENDING''
      then r\<lparr> trg_status := ''CLEARED'', consumed_at := Some now,
              trg_fire_reason := Some (ReasonText reason) \<rparr> else r)"

text \<open>\<^verbatim>\<open>clear_pending_triggers\<close> returns the number of rows it cleared.\<close>

definition clear_pending_triggers ::
  "int \<Rightarrow> string \<Rightarrow> string \<Rightarrow> trigger_row list \<Rightarrow> nat \<times> trigger_row list" where
  "clear_pending_triggers now symbol reason db =
     (length (filter (\<lambda>r. trg_symbol r = symbol \<and> trg_status r = ''PENDING'') db),
      map (clear_row now symbol reason) db)"

text \<open>\<^verbatim>\<open>SELECT ... WHERE status = 'PENDING' ORDER BY created_at ASC\<close>.\<close>

definition get_pending_triggers :: "trigger_row list \<Rightarrow> trigger_row list" where
  "get_pending_triggers db = sort_key trg_created_at (filter (\<lambda>r. trg_status r = ''PENDING'') db)"

text \<open>\<^verbatim>\<open>UPDATE triggers SET status=?, consumed_at=?, result=?, fire_reason=? WHERE id=?\<close>.\<close>

definition marked ::
  "int \<Rightarrow> string \<Rightarrow> string option \<Rightarrow> fire_reason option \<Rightarrow> trigger_row \<Rightarrow> trigger_row" where
  "marked now status res reason r =
     r\<lparr> trg_status := status, consumed_at := Some now, trg_result := res,
        trg_fire_reason := reason \<rparr>"

definition mark_trigger_status ::
  "int \<Rightarrow> nat \<Rightarrow> string \<Rightarrow> string option \<Rightarrow> fire_reason option \<Rightarrow> trigger_row list
     \<Rightarrow> trigger_row list" where
  "mark_trigger_status now tid status res reason db =
     map (\<lambda>r. if trigger_id r = tid then marked now status res reason r else r) db"

subsection \<open>Trigger evaluation\<close>

text \<open>
  \<^verbatim>\<open>eval_trigger\<close> on the single bar built from the current price.  A missing key of the
  trigger raises in the source and is caught: the verdict is then False with an error text.
  Here a quote of 0.0 is a price like any other: the test is \<^verbatim>\<open>is None\<close>.
\<close>

definition eval_trigger ::
  "(string \<Rightarrow> real option) \<Rightarrow> next_trigger \<Rightarrow> string \<Rightarrow> bool \<times> fire_reason" where
  "eval_trigger feed trigger symbol =
     (case feed symbol of
        None \<Rightarrow> (False, NoPriceData)
      | Some current_price \<Rightarrow>
          (case (nt_level trigger, nt_type trigger, nt_direction trigger) of
             (Some level, Some trigger_type, Some direction) \<Rightarrow>
               (let pip_mult = get_pip_multiplier symbol;
                    slop = 0.5 / of_int pip_mult
                in if trigger_type = ''level_break'' then
                     (if direction = ''above'' \<and> current_price > level
                        then (True, PriceAbove current_price level)
                      else if direction = ''below'' \<and> current_price < level
                        then (True, PriceBelow current_price level)
                      else (False, ConditionNotMet current_price level))
                   else if trigger_type = ''retest_hold'' then
                     (let at_level = (\<bar>current_price - level\<bar> \<le> slop)
                      in if direction = ''bullish'' \<and> at_level \<and> current_price \<ge> level
                           then (True, RetestBullish current_price level)
                         else if direction = ''bearish'' \<and> at_level \<and> current_price \<le> level
                           then (True, RetestBearish current_price level)
                         else (False, ConditionNotMet current_price level))
                   else if trigger_type = ''range_edge_reject'' then
                     (let at_boundary = (\<bar>current_price - level\<bar> \<le> slop)
                      in if direction = ''bullish'' \<and> at_boundary
                           then (True, NearSupport current_price level)
                         else if direction = ''bearish'' \<and> at_boundary
                           then (True, NearResistance current_price level)
                         else (False, ConditionNotMet current_price level))
                   else if trigger_type = ''ema_retouch'' then
                     (let touching_ema = (\<bar>current_price - level\<bar> \<le> slop)
                      in if touching_ema then (True, TouchingEMA current_price level)
                         else (False, ConditionNotMet current_price level))
                   else (False, ConditionNotMet current_price level))
           | _ \<Rightarrow> (False, EvalError)))"

subsection \<open>The trigger watcher\<close>

definition is_valid_trading_time :: "int \<Rightarrow> bool" where
  "is_valid_trading_time now = (let current_hour = (now mod 86400) div 3600
                                in 6 \<le> current_hour \<and> current_hour < 20)"

definition is_news_window :: "string \<Rightarrow> bool" where
  "is_news_window symbol = False"

text \<open>
  One iteration of \<^verbatim>\<open>process_pending_triggers\<close> for the fetched row \<open>t\<close>.  The parameter
  \<open>reanalyze\<close> is \<^verbatim>\<open>re_analyze_with_trigger\<close>: the parsed answer of the model, or \<open>None\<close>
  when the call or the parsing fails.
\<close>

definition trigger_step ::
  "int \<Rightarrow> (string \<Rightarrow> real option) \<Rightarrow> (string \<Rightarrow> next_trigger \<Rightarrow> analysis option)
     \<Rightarrow> trigger_row \<Rightarrow> trigger_row list \<Rightarrow> trigger_row list" where
  "trigger_step now feed reanalyze t db =
     (if now > expiry_ts t then mark_trigger_status now (trigger_id t) ''EXPIRED'' None None db
      else if \<not> is_valid_trading_time now then db
      else if is_news_window (trg_symbol t) then db
      else
        (case eval_trigger feed (trigger_json t) (trg_symbol t) of
           (met, reason) \<Rightarrow>
             if \<not> met then db
             else
               (case reanalyze (trg_symbol t) (trigger_json t) of
                  Some answer \<Rightarrow>
                    (let decision = (case an_decision answer of None \<Rightarrow> ''UNKNOWN'' | Some d \<Rightarrow> d)
                     in mark_trigger_status now (trigger_id t) ''CONSUMED'' (Some decision)
                          (Some reason) db)
                | None \<Rightarrow>
                    mark_trigger_status now (trigger_id t) ''CONSUMED'' (Some ''ERROR'')
                      (Some reason) db)))"

text \<open>
  The whole pass: the pending rows are fetched once and handled one after the other, with
  no other writer in between.
\<close>

definition process_pending_triggers ::
  "int \<Rightarrow> (string \<Rightarrow> real option) \<Rightarrow> (string \<Rightarrow> next_trigger \<Rightarrow> analysis option)
     \<Rightarrow> trigger_row list \<Rightarrow> trigger_row list" where
  "process_pending_triggers now feed reanalyze db =
     fold (trigger_step now feed reanalyze) (get_pending_triggers db) db"

text \<open>What the iteration for the fetched row \<open>t\<close> does to a stored row \<open>r\<close> with the same id.\<close>

definition trigger_after ::
  "int \<Rightarrow> (string \<Rightarrow> real option) \<Rightarrow> (string \<Rightarrow> next_trigger \<Rightarrow> analysis option)
     \<Rightarrow> trigger_row \<Rightarrow> trigger_row \<Rightarrow> trigger_row" where
  "trigger_after now feed reanalyze t r =
     (if now > expiry_ts t then marked now ''EXPIRED'' None None r
      else if \<not> is_valid_trading_time now \<or> is_news_window (trg_symbol t)
              \<or> \<not> fst (eval_trigger feed (trigger_json t) (trg_symbol t)) then r
      else marked now ''CONSUMED''
             (Some (case reanalyze (trg_symbol t) (trigger_json t) of
                      None \<Rightarrow> ''ERROR''
                    | Some answer \<Rightarrow> (case an_decision answer of None \<Rightarrow> ''UNKNOWN'' | Some d \<Rightarrow> d)))
             (Some (snd (eval_trigger feed (trigger_json t) (trg_symbol t)))) r)"

subsection \<open>Histories of the trigger store\<close>

text \<open>
  The table is written by two threads.  A request runs \<^verbatim>\<open>save_trigger\<close> or
  \<^verbatim>\<open>clear_pending_triggers\<close>, each one transaction.  The watcher's pass is no transaction:
  it fetches the pending rows once, and then, for one fetched row after the other, reads
  the clock and the price, may call the model, and writes with \<^verbatim>\<open>mark_trigger_status\<close>.
  A state is the table together with the fetched rows the watcher has still to handle, and
  a step is one transaction of either thread, so that a request can run between the fetch
  and any of the watcher's writes.  \<^verbatim>\<open>process_pending_triggers\<close> above is the pass with no
  request in between.
\<close>

type_synonym store_state = "trigger_row list \<times> trigger_row list"

inductive store_step :: "store_state \<Rightarrow> store_state \<Rightarrow> bool" where
  step_save: "store_step (db, todo) (snd (save_trigger utc_offset now symbol a db), todo)"
| step_clear: "store_step (db, todo) (snd (clear_pending_triggers now symbol reason db), todo)"
| step_fetch: "store_step (db, []) (db, get_pending_triggers db)"
| step_watch: "store_step (db, t # todo) (trigger_step now feed reanalyze t db, todo)"

inductive reached :: "store_state \<Rightarrow> bool" where
  reached_init: "reached ([], [])"
| reached_step: "reached st \<Longrightarrow> store_step st st' \<Longrightarrow> reached st'"

definition pending_for :: "string \<Rightarrow> trigger_row list \<Rightarrow> trigger_row list" where
  "pending_for symbol db = filter (\<lambda>r. trg_symbol r = symbol \<and> trg_status r = ''PENDING'') db"

definition trigger_statuses :: "string set" where
  "trigger_statuses = {''PENDING'', ''CONSUMED'', ''EXPIRED'', ''SUPERSEDED'', ''CLEARED''}"

text \<open>
  The invariant of the trigger store: ids are unique, every symbol has at most one PENDING
  trigger, and every status is one of the five of the table's CHECK constraint.
\<close>

definition store_ok :: "trigger_row list \<Rightarrow> bool" where
  "store_ok db \<longleftrightarrow>
     distinct (map trigger_id db)
     \<and> (\<forall>symbol. length (pending_for symbol db) \<le> 1)
     \<and> (\<forall>r \<in> set db. trg_status r \<in> trigger_statuses)"

text \<open>A model call that always fails.\<close>

definition failing_model :: "string \<Rightarrow> next_trigger \<Rightarrow> analysis option" where
  "failing_model symbol trigger = None"

subsection \<open>Sample inputs\<close>

text \<open>
  The EURUSD long of the specification's scenarios (entry 1.1000, stop 1.0980, target
  1.1050), and a long whose stop lies above its entry: its stop distance of 20 pips and
  its reward-to-risk ratio of 2.5 pass \<^verbatim>\<open>validate_signal_before_execution\<close>, which
  measures both with absolute values.
\<close>

definition eurusd_buy :: signal_data where
  "eurusd_buy = \<lparr> sd_symbol = ''EURUSD'', sd_decision = ''BUY'',
                  sd_entry = 1.1000, sd_sl = 1.0980, sd_tp = 1.1050 \<rparr>"

definition eurusd_buy_stop_above :: signal_data where
  "eurusd_buy_stop_above = \<lparr> sd_symbol = ''EURUSD'', sd_decision = ''BUY'',
                             sd_entry = 1.1000, sd_sl = 1.1020, sd_tp = 1.1050 \<rparr>"


text \<open>
  The retest trigger of the specification's scenario, a range-edge trigger at 1.0850 with
  a direction to choose, and a WAIT answer carrying a trigger.
\<close>

definition retest_trigger :: next_trigger where
  "retest_trigger = \<lparr> nt_type = Some ''retest_hold'', nt_timeframe = Some ''M15'',
                      nt_level = Some 1.0835, nt_direction = Some ''bullish'',
                      nt_expiry_bars = Some 8 \<rparr>"

definition edge_trigger :: "string \<Rightarrow> next_trigger" where
  "edge_trigger direction = \<lparr> nt_type = Some ''range_edge_reject'', nt_timeframe = Some ''M15'',
                              nt_level = Some 1.0850, nt_direction = Some direction,
                              nt_expiry_bars = None \<rparr>"

definition wait_with :: "next_trigger \<Rightarrow> analysis" where
  "wait_with nt = \<lparr> an_decision = Some ''WAIT'', an_next_trigger = Some nt,
                    an_playbook = None \<rparr>"

text \<open>
  A history with a request inside a watcher pass, all for EURUSD, on a server running in
  UTC: a WAIT answer saves the retest trigger at 10:00; the watcher fetches it; at 10:01 a
  second WAIT answer saves a range-edge trigger; at 10:02 the watcher handles the row it
  had fetched, with the price on the level of the retest trigger and a failing model call.
\<close>

definition first_wait_db :: "trigger_row list" where
  "first_wait_db = snd (save_trigger 0 36000 ''EURUSD'' (wait_with retest_trigger) [])"

definition second_wait_db :: "trigger_row list" where
  "second_wait_db =
     snd (save_trigger 0 36060 ''EURUSD'' (wait_with (edge_trigger ''bearish'')) first_wait_db)"

definition stale_watch_db :: "trigger_row list" where
  "stale_watch_db =
     fold (trigger_step 36120 (single_feed ''EURUSD'' 1.0835) failing_model)
       (get_pending_triggers first_wait_db) second_wait_db"

text \<open>\<^verbatim>\<open>SELECT ... FROM triggers WHERE id = ?\<close>.\<close>

definition get_trigger :: "trigger_row list \<Rightarrow> nat \<Rightarrow> trigger_row option" where
  "get_trigger db i = find (\<lambda>r. trigger_id r = i) db"

section \<open>Theorems\<close>

subsection \<open>Substrings and rounding\<close>

lemma starts_with_iff: "starts_with p s \<longleftrightarrow> (\<exists>post. s = p @ post)"
  by (induction p s rule: starts_with.induct) auto

lemma str_in_iff: "str_in sub s \<longleftrightarrow> (\<exists>pre post. s = pre @ sub @ post)"
proof (induction s)
  case Nil
  then show ?case by auto
next
  case (Cons c cs)
  show ?case
  proof
    assume "str_in sub (c # cs)"
    then consider "starts_with sub (c # cs)" | "str_in sub cs" by auto
    then show "\<exists>pre post. c # cs = pre @ sub @ post"
    proof cases
      case 1
      then obtain post where "c # cs = sub @ post" by (auto simp: starts_with_iff)
      then have "c # cs = [] @ sub @ post" by simp
      then show ?thesis by blast
    next
      case 2
      then obtain pre post where "cs = pre @ sub @ post" using Cons.IH by auto
      then have "c # cs = (c # pre) @ sub @ post" by simp
      then show ?thesis by blast
    qed
  next
    assume "\<exists>pre post. c # cs = pre @ sub @ post"
    then obtain pre post where eq: "c # cs = pre @ sub @ post" by auto
    show "str_in sub (c # cs)"
    proof (cases pre)
      case Nil
      then have "starts_with sub (c # cs)" using eq by (auto simp: starts_with_iff)
      then show ?thesis by simp
    next
      case (Cons a pre')
      then have "cs = pre' @ sub @ post" using eq by simp
      then have "str_in sub cs" using Cons.IH by auto
      then show ?thesis by simp
    qed
  qed
qed

lemma str_in_longer: "str_in (a @ b) s \<Longrightarrow> str_in b s"
proof -
  assume "str_in (a @ b) s"
  then obtain pre post where "s = pre @ (a @ b) @ post" by (auto simp: str_in_iff)
  then have "s = (pre @ a) @ b @ post" by simp
  then show "str_in b s" unfolding str_in_iff by blast
qed

lemma jpy_pairs_collapse:
  "list_ex (\<lambda>jpy_pair. str_in jpy_pair s) jpy_pairs \<longleftrightarrow> str_in ''JPY'' s"
proof -
  have "str_in ''USDJPY'' s \<Longrightarrow> str_in ''JPY'' s"
    using str_in_longer [of "''USD''" "''JPY''" s] by simp
  moreover have "str_in ''EURJPY'' s \<Longrightarrow> str_in ''JPY'' s"
    using str_in_longer [of "''EUR''" "''JPY''" s] by simp
  moreover have "str_in ''GBPJPY'' s \<Longrightarrow> str_in ''JPY'' s"
    using str_in_longer [of "''GBP''" "''JPY''" s] by simp
  moreover have "str_in ''AUDJPY'' s \<Longrightarrow> str_in ''JPY'' s"
    using str_in_longer [of "''AUD''" "''JPY''" s] by simp
  ultimately show ?thesis by (auto simp: jpy_pairs_def)
qed

lemma round_half_even_minus: "round_half_even (- y) = - round_half_even y"
proof (cases "y \<in> \<int>")
  case True
  then obtain k where "y = of_int k" by (auto elim: Ints_cases)
  then show ?thesis by (simp add: round_half_even_def)
next
  case False
  then have ne: "of_int \<lfloor>y\<rfloor> \<noteq> y"
    by (metis Ints_of_int)
  have fl: "\<lfloor>- y\<rfloor> = - \<lfloor>y\<rfloor> - 1"
    using ne by (simp add: floor_minus ceiling_altdef)
  have d: "y - of_int \<lfloor>y\<rfloor> \<noteq> 0" using ne by simp
  show ?thesis unfolding round_half_even_def Let_def fl
    using d by (auto simp: field_simps)
qed

lemma py_round1_minus: "py_round1 (- z) = - py_round1 z"
  by (simp add: py_round1_def round_half_even_minus)

subsection \<open>Pips\<close>

text \<open>
  Claim C7.  For every entry price, exit price and symbol the pip value of a BUY is the
  negative of the pip value of a SELL; each is the price difference exit minus entry, times
  the pip multiplier, times +1 for BUY and -1 for SELL, rounded to one decimal; and the
  multiplier is 10 when the upper-cased symbol contains one of the gold markers XAU, GOLD
  or GC, otherwise 100 when it contains JPY, otherwise 10000.
\<close>

theorem calculate_pips_antisymmetric:
  "calculate_pips entry exit symbol ''BUY'' = - calculate_pips entry exit symbol ''SELL''
   \<and> calculate_pips entry exit symbol ''BUY''
       = py_round1 ((exit - entry) * of_int (get_pip_multiplier symbol) * 1)
   \<and> calculate_pips entry exit symbol ''SELL''
       = py_round1 ((exit - entry) * of_int (get_pip_multiplier symbol) * (- 1))
   \<and> get_pip_multiplier symbol =
       (if str_in ''XAU'' (upper symbol) \<or> str_in ''GOLD'' (upper symbol)
           \<or> str_in ''GC'' (upper symbol) then 10
        else if str_in ''JPY'' (upper symbol) then 100
        else 10000)"
proof -
  let ?m = "of_int (get_pip_multiplier symbol) :: real"
  have flip: "(entry - exit) * ?m = - ((exit - entry) * ?m)"
    by (simp add: algebra_simps)
  have buy: "calculate_pips entry exit symbol ''BUY'' = py_round1 ((exit - entry) * ?m)"
    by (simp add: calculate_pips_def Let_def)
  have sell: "calculate_pips entry exit symbol ''SELL'' = py_round1 (- ((exit - entry) * ?m))"
    using flip by (simp add: calculate_pips_def Let_def)
  have anti: "calculate_pips entry exit symbol ''BUY'' = - calculate_pips entry exit symbol ''SELL''"
    unfolding buy sell by (simp only: py_round1_minus minus_minus)
  have mult: "get_pip_multiplier symbol =
       (if str_in ''XAU'' (upper symbol) \<or> str_in ''GOLD'' (upper symbol)
           \<or> str_in ''GC'' (upper symbol) then 10
        else if str_in ''JPY'' (upper symbol) then 100
        else 10000)"
    unfolding get_pip_multiplier_def Let_def jpy_pairs_collapse
    by (simp add: gold_terms_def)
  show ?thesis using anti buy sell mult by simp
qed

subsection \<open>Breakeven impact\<close>

text \<open>
  Claim C3.  For every actual result, hypothetical result, actual and hypothetical pnl and
  breakeven flag, the classification is NO_BREAKEVEN_USED when the flag is not set;
  otherwise SAVED_LOSS for actual BREAKEVEN against hypothetical LOSS, MISSED_PROFIT for
  actual BREAKEVEN against hypothetical WIN, REDUCED_PROFIT when both are WIN and the actual
  pnl is below the hypothetical one, and NO_IMPACT in every other case; a missing
  hypothetical result is such a case.
\<close>

theorem calculate_breakeven_impact_table:
  "calculate_breakeven_impact actual_result hyp_result actual_pnl hyp_pnl
       breakeven_used =
     (if \<not> truthy_int breakeven_used then ''NO_BREAKEVEN_USED''
      else if actual_result = Some ''BREAKEVEN'' \<and> hyp_result = Some ''LOSS''
        then ''SAVED_LOSS''
      else if actual_result = Some ''BREAKEVEN'' \<and> hyp_result = Some ''WIN''
        then ''MISSED_PROFIT''
      else if actual_result = Some ''WIN'' \<and> hyp_result = Some ''WIN''
              \<and> actual_pnl < hyp_pnl
        then ''REDUCED_PROFIT''
      else ''NO_IMPACT'')
   \<and> calculate_breakeven_impact actual_result None actual_pnl hyp_pnl (Some 1)
       = ''NO_IMPACT''"
  by (auto simp: calculate_breakeven_impact_def truthy_int_def truthy_str_def)


subsection \<open>Loops over a table as maps over its rows\<close>

lemma fold_by_key:
  fixes key :: "'r \<Rightarrow> nat"
  assumes step: "\<And>a db. distinct (map key db) \<Longrightarrow>
                   step a db = map (\<lambda>r. if key r = key a then g a r else r) db"
    and keyg: "\<And>a r. key (g a r) = key r"
  shows "distinct (map key as) \<Longrightarrow> distinct (map key db) \<Longrightarrow>
         fold step as db =
           map (\<lambda>r. case find (\<lambda>a. key a = key r) as of None \<Rightarrow> r | Some a \<Rightarrow> g a r) db"
proof (induction as arbitrary: db)
  case Nil
  then show ?case by simp
next
  case (Cons a as)
  let ?Fa = "\<lambda>r. if key r = key a then g a r else r"
  have keys: "map key (map ?Fa db) = map key db"
    by (simp add: keyg)
  have d1: "distinct (map key (map ?Fa db))" using Cons.prems(2) by (simp only: keys)
  have "key a \<notin> key ` set as" using Cons.prems(1) by simp
  then have nf: "find (\<lambda>a'. key a' = key a) as = None"
    unfolding find_None_iff by (metis imageI)
  have "fold step (a # as) db = fold step as (map ?Fa db)"
    using step [OF Cons.prems(2)] by simp
  also have "\<dots> = map (\<lambda>r. case find (\<lambda>a. key a = key r) as of None \<Rightarrow> r | Some a \<Rightarrow> g a r)
                      (map ?Fa db)"
    using Cons.IH [OF _ d1] Cons.prems(1) by simp
  also have "\<dots> = map (\<lambda>r. case find (\<lambda>a. key a = key r) (a # as) of None \<Rightarrow> r | Some a \<Rightarrow> g a r) db"
    using nf by (auto simp: keyg)
  finally show ?case .
qed

lemma find_filter_key:
  "distinct (map key db) \<Longrightarrow> r \<in> set db \<Longrightarrow>
   find (\<lambda>a. key a = key r) (filter P db) = (if P r then Some r else None)"
proof (induction db)
  case Nil
  then show ?case by simp
next
  case (Cons x db)
  show ?case
  proof (cases "x = r")
    case True
    then have "key r \<notin> key ` set db" using Cons.prems(1) by auto
    then have "find (\<lambda>a. key a = key r) (filter P db) = None"
      unfolding find_None_iff by (metis imageI filter_is_subset subsetD)
    then show ?thesis using True by simp
  next
    case False
    then have rin: "r \<in> set db" using Cons.prems(2) by simp
    then have "key x \<noteq> key r" using Cons.prems(1) by (auto simp: image_iff)
    then show ?thesis using Cons.IH rin Cons.prems(1) by simp
  qed
qed

lemma fold_filter_by_key:
  fixes key :: "'r \<Rightarrow> nat"
  assumes step: "\<And>a db. distinct (map key db) \<Longrightarrow>
                   step a db = map (\<lambda>r. if key r = key a then g a r else r) db"
    and keyg: "\<And>a r. key (g a r) = key r"
    and dist: "distinct (map key db)"
  shows "fold step (filter P db) db = map (\<lambda>r. if P r then g r r else r) db"
proof -
  have "distinct (map key (filter P db))"
    using dist by (simp add: distinct_map_filter)
  then have "fold step (filter P db) db =
      map (\<lambda>r. case find (\<lambda>a. key a = key r) (filter P db) of None \<Rightarrow> r | Some a \<Rightarrow> g a r) db"
    using fold_by_key [of key step g, OF step keyg _ dist] by blast
  also have "\<dots> = map (\<lambda>r. if P r then g r r else r) db"
    by (rule map_cong) (simp_all add: find_filter_key [OF dist])
  finally show ?thesis .
qed

lemma get_signal_unique:
  "distinct (map signal_id db) \<Longrightarrow> r \<in> set db \<Longrightarrow> get_signal db (signal_id r) = Some r"
  unfolding get_signal_def
proof (induction db)
  case Nil
  then show ?case by simp
next
  case (Cons x db)
  then show ?case by (auto simp: image_iff)
qed

lemma get_signal_map:
  "(\<And>r. signal_id (h r) = signal_id r) \<Longrightarrow>
   get_signal (map h db) i = map_option h (get_signal db i)"
  unfolding get_signal_def by (induction db) auto


lemma same_key_same_row:
  "distinct (map key db) \<Longrightarrow> r \<in> set db \<Longrightarrow> r' \<in> set db \<Longrightarrow> key r = key r' \<Longrightarrow> r = r'"
  by (meson distinct_map inj_onD)

lemma update_signal_rowwise:
  assumes dist: "distinct (map signal_id db)"
    and same: "\<And>row. get_signal db i = Some row \<Longrightarrow> f row row = g row"
  shows "(case get_signal db i of None \<Rightarrow> db | Some row \<Rightarrow> update_signal i (f row) db)
         = map (\<lambda>r. if signal_id r = i then g r else r) db"
proof (cases "get_signal db i")
  case None
  then have "\<And>r. r \<in> set db \<Longrightarrow> signal_id r \<noteq> i"
    by (auto simp: get_signal_def find_None_iff)
  then have "map (\<lambda>r. if signal_id r = i then g r else r) db = db"
    by (intro map_idI) simp
  then show ?thesis using None by simp
next
  case (Some row)
  then have rin: "row \<in> set db" and rid: "signal_id row = i"
    by (auto simp: get_signal_def find_Some_iff)
  have "update_signal i (f row) db = map (\<lambda>r. if signal_id r = i then g r else r) db"
    unfolding update_signal_def
  proof (rule map_cong [OF refl])
    fix r assume "r \<in> set db"
    then have "signal_id r = i \<Longrightarrow> r = row"
      using same_key_same_row [OF dist _ rin] rid by simp
    then show "(if signal_id r = i then f row r else r) = (if signal_id r = i then g r else r)"
      using same [OF Some] by auto
  qed
  then show ?thesis using Some by simp
qed

lemma update_stop_loss_to_breakeven_rowwise:
  assumes "distinct (map signal_id db)"
  shows "update_stop_loss_to_breakeven now i ns tp db
         = map (\<lambda>r. if signal_id r = i then moved_to_breakeven now ns tp r else r) db"
  unfolding update_stop_loss_to_breakeven_def Let_def
  by (rule update_signal_rowwise [OF assms]) (simp add: moved_to_breakeven_def)

lemma update_signal_with_hypothetical_rowwise:
  assumes "distinct (map signal_id db)"
  shows "update_signal_with_hypothetical now i ar ae ap hr he hp im db
         = map (\<lambda>r. if signal_id r = i then closed_row now ar ae ap hr he hp im r else r) db"
  unfolding update_signal_with_hypothetical_def Let_def
  by (rule update_signal_rowwise [OF assms]) (simp add: closed_row_def)

lemma breakeven_step_rowwise:
  assumes "distinct (map signal_id db)"
  shows "breakeven_step now feed a db
         = map (\<lambda>r. if signal_id r = signal_id a then breakeven_row now feed a r else r) db"
proof (cases "feed (sig_symbol a)")
  case None
  then show ?thesis by (simp add: breakeven_step_def breakeven_row_def cong: if_cong)
next
  case (Some p)
  then show ?thesis
    by (simp add: breakeven_step_def breakeven_row_def
          update_stop_loss_to_breakeven_rowwise [OF assms] cong: if_cong)
qed

lemma outcome_step_rowwise:
  assumes "distinct (map signal_id db)"
  shows "outcome_step now feed a db
         = map (\<lambda>r. if signal_id r = signal_id a then outcome_row now feed a r else r) db"
proof (cases "feed (sig_symbol a)")
  case None
  then show ?thesis by (simp add: outcome_step_def outcome_row_def cong: if_cong)
next
  case (Some p)
  note price = Some
  show ?thesis
  proof (cases "p = 0")
    case True
    then show ?thesis using price by (simp add: outcome_step_def outcome_row_def cong: if_cong)
  next
    case False
    note nz = False
    show ?thesis
    proof (cases "actual_outcome (sig_decision a) (entry_price a) (effective_sl a)
                    (take_profit a) p")
      case None
      then show ?thesis using price nz by (simp add: outcome_step_def outcome_row_def cong: if_cong)
    next
      case (Some res)
      obtain ar ae where res: "res = (ar, ae)" by (cases res)
      show ?thesis
        using price nz Some res
        by (simp add: outcome_step_def outcome_row_def Let_def
              update_signal_with_hypothetical_rowwise [OF assms] cong: if_cong)
    qed
  qed
qed

lemma signal_id_moved [simp]: "signal_id (moved_to_breakeven now ns tp r) = signal_id r"
  by (simp add: moved_to_breakeven_def)

lemma signal_id_closed [simp]: "signal_id (closed_row now ar ae ap hr he hp im r) = signal_id r"
  by (simp add: closed_row_def)

lemma signal_id_breakeven_row [simp]: "signal_id (breakeven_row now feed a r) = signal_id r"
  by (simp add: breakeven_row_def split: option.splits)

lemma signal_id_outcome_row [simp]: "signal_id (outcome_row now feed a r) = signal_id r"
  by (simp add: outcome_row_def Let_def split: option.splits prod.splits)

lemma check_breakeven_conditions_rowwise:
  assumes "distinct (map signal_id db)"
  shows "check_breakeven_conditions now feed db
         = map (\<lambda>r. if breakeven_candidate r then breakeven_row now feed r r else r) db"
  unfolding check_breakeven_conditions_def
  by (rule fold_filter_by_key [where key = signal_id and g = "breakeven_row now feed"])
     (simp_all add: breakeven_step_rowwise assms)

lemma check_exits_rowwise:
  assumes "distinct (map signal_id db)"
  shows "check_exits now feed db
         = map (\<lambda>r. if active_trade r then outcome_row now feed r r else r) db"
  unfolding check_exits_def
  by (rule fold_filter_by_key [where key = signal_id and g = "outcome_row now feed"])
     (simp_all add: outcome_step_rowwise assms)


subsection \<open>The row of one signal after a pass\<close>

lemma get_signal_breakeven_pass:
  assumes "distinct (map signal_id db)" "s \<in> set db"
  shows "get_signal (check_breakeven_conditions now feed db) (signal_id s)
         = Some (if breakeven_candidate s then breakeven_row now feed s s else s)"
proof -
  have "get_signal (check_breakeven_conditions now feed db) (signal_id s)
        = map_option (\<lambda>r. if breakeven_candidate r then breakeven_row now feed r r else r)
            (get_signal db (signal_id s))"
    unfolding check_breakeven_conditions_rowwise [OF assms(1)]
    by (rule get_signal_map) simp
  then show ?thesis using get_signal_unique [OF assms] by simp
qed

lemma get_signal_check_exits:
  assumes "distinct (map signal_id db)" "s \<in> set db"
  shows "get_signal (check_exits now feed db) (signal_id s)
         = Some (if active_trade s then outcome_row now feed s s else s)"
proof -
  have "get_signal (check_exits now feed db) (signal_id s)
        = map_option (\<lambda>r. if active_trade r then outcome_row now feed r r else r)
            (get_signal db (signal_id s))"
    unfolding check_exits_rowwise [OF assms(1)]
    by (rule get_signal_map) simp
  then show ?thesis using get_signal_unique [OF assms] by simp
qed

subsection \<open>Breakeven engine\<close>

text \<open>
  Claim C2, as the code has it.  Take a table with unique ids and an ACTIVE BUY or SELL row
  whose symbol has a price \<open>p\<close> that the code accepts (a quote other than 0.0).  If the
  row's breakeven flag is 0, the pass moves the stop exactly when \<open>p\<close> has reached the
  trigger price, which is entry + (entry - stop) for BUY and entry - (stop - entry) for
  SELL, the stop being the one stored at creation: the row then gets current stop = entry,
  flag = 1, the breakeven timestamp and one more stop-modification record, and is
  otherwise left as it was.  A row whose flag is not 0 is left as it was, so a signal
  that has been moved is not evaluated again.  The trigger price is entry plus or minus
  the absolute risk distance whenever the stop lies on the losing side of the entry
  (stop at or below entry for BUY, at or above entry for SELL).
\<close>

theorem breakeven_pass_effect:
  assumes dist: "distinct (map signal_id db)" and sin: "s \<in> set db"
    and act: "sig_status s = ''ACTIVE''"
    and dec: "sig_decision s = ''BUY'' \<or> sig_decision s = ''SELL''"
    and price: "feed (sig_symbol s) = Some p" and nz: "p \<noteq> 0"
  shows "(breakeven_triggered s = Some 0 \<longrightarrow>
            get_signal (check_breakeven_conditions now feed db) (signal_id s)
            = Some (if (sig_decision s = ''BUY'' \<and> p \<ge> entry_price s + (entry_price s - stop_loss s))
                     \<or> (sig_decision s = ''SELL'' \<and> p \<le> entry_price s - (stop_loss s - entry_price s))
                    then s\<lparr> current_stop_loss := Some (entry_price s),
                            breakeven_triggered := Some 1,
                            breakeven_timestamp := Some now,
                            stop_modifications := stop_modifications s @
                              [\<lparr> mod_timestamp = now, mod_type = ''BREAKEVEN'',
                                 mod_trigger_price = p, mod_new_stop_loss = entry_price s,
                                 mod_reason = ''Moved to breakeven at 1:1 R/R'' \<rparr>] \<rparr>
                    else s))
       \<and> (breakeven_triggered s \<noteq> Some 0 \<longrightarrow>
            get_signal (check_breakeven_conditions now feed db) (signal_id s) = Some s)
       \<and> (stop_loss s \<le> entry_price s \<longrightarrow>
            breakeven_price ''BUY'' (entry_price s) (stop_loss s)
            = entry_price s + \<bar>entry_price s - stop_loss s\<bar>)
       \<and> (entry_price s \<le> stop_loss s \<longrightarrow>
            breakeven_price ''SELL'' (entry_price s) (stop_loss s)
            = entry_price s - \<bar>entry_price s - stop_loss s\<bar>)"
  using act dec price nz
  by (auto simp: get_signal_breakeven_pass [OF dist sin] breakeven_candidate_def
        breakeven_row_def breakeven_price_def moved_to_breakeven_def)

text \<open>
  The pass on the sample long with entry 1.1000 and stop 1.0980: at 1.1020 the stop moves
  to entry.
\<close>

theorem breakeven_pass_effect_witness:
  "get_signal (check_breakeven_conditions 60 (single_feed ''EURUSD'' 1.1020)
       [new_signal 1 0 eurusd_buy]) 1
   = Some ((new_signal 1 0 eurusd_buy)
        \<lparr> current_stop_loss := Some 1.1000, breakeven_triggered := Some 1,
          breakeven_timestamp := Some 60,
          stop_modifications :=
            [\<lparr> mod_timestamp = 60, mod_type = ''BREAKEVEN'', mod_trigger_price = 1.1020,
               mod_new_stop_loss = 1.1000, mod_reason = ''Moved to breakeven at 1:1 R/R'' \<rparr>] \<rparr>)"
  using breakeven_pass_effect [of "[new_signal 1 0 eurusd_buy]" "new_signal 1 0 eurusd_buy"
          "single_feed ''EURUSD'' 1.1020" "1.1020" 60]
  by (simp add: new_signal_def eurusd_buy_def single_feed_def)

text \<open>
  Claim C2 as stated fails for a stop on the wrong side of the entry.  The long with entry
  1.1000 and stop 1.1020 has the absolute risk distance 0.0020, so the stated trigger price
  is 1.1020; the code computes 1.1000 + (1.1000 - 1.1020) = 1.0980 and moves the stop to
  entry at the price 1.0990, below the stated trigger.
\<close>

theorem breakeven_trigger_price_counterexample:
  "save_signal_to_db 0 eurusd_buy_stop_above [] = (1, [new_signal 1 0 eurusd_buy_stop_above])
   \<and> (1.0990 :: real) < sd_entry eurusd_buy_stop_above
         + \<bar>sd_entry eurusd_buy_stop_above - sd_sl eurusd_buy_stop_above\<bar>
   \<and> map breakeven_triggered
         (check_breakeven_conditions 60 (single_feed ''EURUSD'' 1.0990)
            [new_signal 1 0 eurusd_buy_stop_above]) = [Some 1]
   \<and> map current_stop_loss
         (check_breakeven_conditions 60 (single_feed ''EURUSD'' 1.0990)
            [new_signal 1 0 eurusd_buy_stop_above]) = [Some 1.1000]"
  by (simp add: save_signal_to_db_def next_signal_id_def eurusd_buy_stop_above_def
        new_signal_def check_breakeven_conditions_def breakeven_candidate_def
        breakeven_step_def single_feed_def breakeven_price_def
        update_stop_loss_to_breakeven_def get_signal_def update_signal_def)

subsection \<open>Outcome engine\<close>

text \<open>
  Claim C1.  Take a table with unique ids and an ACTIVE row whose symbol has a price \<open>p\<close>
  that the code accepts (a quote other than 0.0); the current stop is
  \<^verbatim>\<open>COALESCE(current_stop_loss, stop_loss)\<close>.  For BUY: if \<open>p\<close> is at or above the target
  the row closes as WIN with exit price = target; otherwise if \<open>p\<close> is at or below the
  current stop it closes as BREAKEVEN when the current stop equals the entry and as LOSS
  otherwise, with exit price = current stop; otherwise the row is left as it was.  SELL
  mirrors the inequalities.  The hypothetical leg recorded at the close tests the same
  price against the target and the stop stored at creation: WIN at the target, else LOSS
  at that stop when it is hit, else no result and no exit price at all.  It is the rule
  of the actual leg applied to the stored stop whenever that stop differs from the entry.
\<close>

theorem check_exits_outcome:
  assumes dist: "distinct (map signal_id db)" and sin: "s \<in> set db"
    and act: "sig_status s = ''ACTIVE''"
    and price: "feed (sig_symbol s) = Some p" and nz: "p \<noteq> 0"
  shows
   "(sig_decision s = ''BUY'' \<and> take_profit s \<le> p \<longrightarrow>
       (\<exists>r. get_signal (check_exits now feed db) (signal_id s) = Some r
          \<and> sig_status r = ''CLOSED'' \<and> sig_result r = Some ''WIN''
          \<and> exit_price r = Some (take_profit s)
          \<and> hypothetical_result r = Some ''WIN''
          \<and> hypothetical_exit_price r = Some (take_profit s)))
    \<and> (sig_decision s = ''BUY'' \<and> p < take_profit s \<and> p \<le> effective_sl s \<longrightarrow>
       (\<exists>r. get_signal (check_exits now feed db) (signal_id s) = Some r
          \<and> sig_status r = ''CLOSED''
          \<and> sig_result r = Some (if effective_sl s = entry_price s then ''BREAKEVEN'' else ''LOSS'')
          \<and> exit_price r = Some (effective_sl s)
          \<and> hypothetical_result r = (if p \<le> stop_loss s then Some ''LOSS'' else None)
          \<and> hypothetical_exit_price r = (if p \<le> stop_loss s then Some (stop_loss s) else None)))
    \<and> (sig_decision s = ''BUY'' \<and> p < take_profit s \<and> effective_sl s < p \<longrightarrow>
       get_signal (check_exits now feed db) (signal_id s) = Some s)
    \<and> (sig_decision s = ''SELL'' \<and> p \<le> take_profit s \<longrightarrow>
       (\<exists>r. get_signal (check_exits now feed db) (signal_id s) = Some r
          \<and> sig_status r = ''CLOSED'' \<and> sig_result r = Some ''WIN''
          \<and> exit_price r = Some (take_profit s)
          \<and> hypothetical_result r = Some ''WIN''
          \<and> hypothetical_exit_price r = Some (take_profit s)))
    \<and> (sig_decision s = ''SELL'' \<and> take_profit s < p \<and> effective_sl s \<le> p \<longrightarrow>
       (\<exists>r. get_signal (check_exits now feed db) (signal_id s) = Some r
          \<and> sig_status r = ''CLOSED''
          \<and> sig_result r = Some (if effective_sl s = entry_price s then ''BREAKEVEN'' else ''LOSS'')
          \<and> exit_price r = Some (effective_sl s)
          \<and> hypothetical_result r = (if stop_loss s \<le> p then Some ''LOSS'' else None)
          \<and> hypothetical_exit_price r = (if stop_loss s \<le> p then Some (stop_loss s) else None)))
    \<and> (sig_decision s = ''SELL'' \<and> take_profit s < p \<and> p < effective_sl s \<longrightarrow>
       get_signal (check_exits now feed db) (signal_id s) = Some s)
    \<and> (current_stop_loss s = Some c \<longrightarrow> effective_sl s = c)
    \<and> (stop_loss s \<noteq> entry_price s \<longrightarrow>
         hypothetical_outcome (sig_decision s) (stop_loss s) (take_profit s) p
         = actual_outcome (sig_decision s) (entry_price s) (stop_loss s) (take_profit s) p)"
proof -
  have row: "get_signal (check_exits now feed db) (signal_id s)
             = Some (if active_trade s then outcome_row now feed s s else s)"
    by (rule get_signal_check_exits [OF dist sin])
  have buy_win: "sig_decision s = ''BUY'' \<Longrightarrow> take_profit s \<le> p \<Longrightarrow>
       (\<exists>r. get_signal (check_exits now feed db) (signal_id s) = Some r
          \<and> sig_status r = ''CLOSED'' \<and> sig_result r = Some ''WIN''
          \<and> exit_price r = Some (take_profit s)
          \<and> hypothetical_result r = Some ''WIN''
          \<and> hypothetical_exit_price r = Some (take_profit s))"
    using act price nz
    by (simp add: row active_trade_def outcome_row_def actual_outcome_def
          hypothetical_outcome_def closed_row_def Let_def)
  have buy_stop: "sig_decision s = ''BUY'' \<Longrightarrow> p < take_profit s \<Longrightarrow> p \<le> effective_sl s \<Longrightarrow>
       (\<exists>r. get_signal (check_exits now feed db) (signal_id s) = Some r
          \<and> sig_status r = ''CLOSED''
          \<and> sig_result r = Some (if effective_sl s = entry_price s then ''BREAKEVEN'' else ''LOSS'')
          \<and> exit_price r = Some (effective_sl s)
          \<and> hypothetical_result r = (if p \<le> stop_loss s then Some ''LOSS'' else None)
          \<and> hypothetical_exit_price r = (if p \<le> stop_loss s then Some (stop_loss s) else None))"
    using act price nz
    by (simp add: row active_trade_def outcome_row_def actual_outcome_def
          hypothetical_outcome_def closed_row_def Let_def)
  have buy_run: "sig_decision s = ''BUY'' \<Longrightarrow> p < take_profit s \<Longrightarrow> effective_sl s < p \<Longrightarrow>
       get_signal (check_exits now feed db) (signal_id s) = Some s"
    using act price nz
    by (simp add: row active_trade_def outcome_row_def actual_outcome_def)
  have sell_win: "sig_decision s = ''SELL'' \<Longrightarrow> p \<le> take_profit s \<Longrightarrow>
       (\<exists>r. get_signal (check_exits now feed db) (signal_id s) = Some r
          \<and> sig_status r = ''CLOSED'' \<and> sig_result r = Some ''WIN''
          \<and> exit_price r = Some (take_profit s)
          \<and> hypothetical_result r = Some ''WIN''
          \<and> hypothetical_exit_price r = Some (take_profit s))"
    using act price nz
    by (simp add: row active_trade_def outcome_row_def actual_outcome_def
          hypothetical_outcome_def closed_row_def Let_def)
  have sell_stop: "sig_decision s = ''SELL'' \<Longrightarrow> take_profit s < p \<Longrightarrow> effective_sl s \<le> p \<Longrightarrow>
       (\<exists>r. get_signal (check_exits now feed db) (signal_id s) = Some r
          \<and> sig_status r = ''CLOSED''
          \<and> sig_result r = Some (if effective_sl s = entry_price s then ''BREAKEVEN'' else ''LOSS'')
          \<and> exit_price r = Some (effective_sl s)
          \<and> hypothetical_result r = (if stop_loss s \<le> p then Some ''LOSS'' else None)
          \<and> hypothetical_exit_price r = (if stop_loss s \<le> p then Some (stop_loss s) else None))"
    using act price nz
    by (simp add: row active_trade_def outcome_row_def actual_outcome_def
          hypothetical_outcome_def closed_row_def Let_def)
  have sell_run: "sig_decision s = ''SELL'' \<Longrightarrow> take_profit s < p \<Longrightarrow> p < effective_sl s \<Longrightarrow>
       get_signal (check_exits now feed db) (signal_id s) = Some s"
    using act price nz
    by (simp add: row active_trade_def outcome_row_def actual_outcome_def)
  have eff: "current_stop_loss s = Some c \<Longrightarrow> effective_sl s = c"
    by (simp add: effective_sl_def)
  have same: "stop_loss s \<noteq> entry_price s \<Longrightarrow>
         hypothetical_outcome (sig_decision s) (stop_loss s) (take_profit s) p
         = actual_outcome (sig_decision s) (entry_price s) (stop_loss s) (take_profit s) p"
    by (simp add: hypothetical_outcome_def actual_outcome_def)
  show ?thesis
    using buy_win buy_stop buy_run sell_win sell_stop sell_run eff same by blast
qed

text \<open>The sample long falling straight to 1.0975: closed as LOSS at 1.0980 on both legs.\<close>

theorem check_exits_outcome_witness:
  "\<exists>r. get_signal (check_exits 120 (single_feed ''EURUSD'' 1.0975)
            [new_signal 1 0 eurusd_buy]) 1 = Some r
       \<and> sig_status r = ''CLOSED'' \<and> sig_result r = Some ''LOSS''
       \<and> exit_price r = Some 1.0980
       \<and> hypothetical_result r = Some ''LOSS''
       \<and> hypothetical_exit_price r = Some 1.0980"
  using check_exits_outcome [of "[new_signal 1 0 eurusd_buy]" "new_signal 1 0 eurusd_buy"
          "single_feed ''EURUSD'' 1.0975" "1.0975" 120 "1.0980"]
  by (simp add: new_signal_def eurusd_buy_def single_feed_def effective_sl_def)


subsection \<open>Creation and the breakeven passes\<close>

lemma fold_max_upper: "a \<le> fold max xs a \<and> (\<forall>x \<in> set xs. x \<le> fold max xs (a::nat))"
proof (induction xs arbitrary: a)
  case Nil
  then show ?case by simp
next
  case (Cons y ys)
  have "max y a \<le> fold max ys (max y a)" using Cons.IH by blast
  then show ?case using Cons.IH [of "max y a"] by auto
qed

lemma next_signal_id_fresh: "r \<in> set db \<Longrightarrow> signal_id r < next_signal_id db"
  using fold_max_upper [of 0 "map signal_id db"] by (auto simp: next_signal_id_def less_Suc_eq_le)

lemma save_signal_to_db_distinct:
  assumes "distinct (map signal_id db)" "save_signal_to_db now sd db = (i, db')"
  shows "distinct (map signal_id db')" 
    and "get_signal db' i = Some (new_signal i now sd)"
proof -
  have i: "i = next_signal_id db" and db': "db' = db @ [new_signal i now sd]"
    using assms(2) by (auto simp: save_signal_to_db_def Let_def)
  have fresh: "i \<notin> signal_id ` set db"
    using next_signal_id_fresh i by fastforce
  have nid: "signal_id (new_signal i now sd) = i" by (simp add: new_signal_def)
  show d: "distinct (map signal_id db')"
    using assms(1) fresh by (simp add: db' nid)
  have "new_signal i now sd \<in> set db'" by (simp add: db')
  from get_signal_unique [OF d this] show "get_signal db' i = Some (new_signal i now sd)"
    by (simp add: nid)
qed

lemma check_breakeven_conditions_ids:
  assumes "distinct (map signal_id db)"
  shows "map signal_id (check_breakeven_conditions now feed db) = map signal_id db"
  unfolding check_breakeven_conditions_rowwise [OF assms] by simp

lemma get_signal_SomeD: "get_signal db i = Some r \<Longrightarrow> r \<in> set db \<and> signal_id r = i"
  by (auto simp: get_signal_def find_Some_iff)

lemma plan_kept_breakeven_row:
  "plan_kept sd r \<Longrightarrow> plan_kept sd (if breakeven_candidate r then breakeven_row now feed r r else r)"
  by (auto simp: plan_kept_def breakeven_row_def moved_to_breakeven_def breakeven_candidate_def
        split: option.splits)

lemma plan_kept_passes:
  "distinct (map signal_id db) \<Longrightarrow> get_signal db i = Some r \<Longrightarrow> plan_kept sd r \<Longrightarrow>
   \<exists>r'. get_signal (breakeven_passes cycles db) i = Some r' \<and> plan_kept sd r'"
proof (induction cycles arbitrary: db r)
  case Nil
  then show ?case by (simp add: breakeven_passes_def)
next
  case (Cons c cycles)
  let ?db1 = "check_breakeven_conditions (fst c) (snd c) db"
  have rin: "r \<in> set db" and rid: "signal_id r = i"
    using get_signal_SomeD [OF Cons.prems(2)] by auto
  have d1: "distinct (map signal_id ?db1)"
    using Cons.prems(1) by (simp add: check_breakeven_conditions_ids)
  have g1: "get_signal ?db1 i
            = Some (if breakeven_candidate r then breakeven_row (fst c) (snd c) r r else r)"
    using get_signal_breakeven_pass [OF Cons.prems(1) rin] rid by simp
  have k1: "plan_kept sd (if breakeven_candidate r then breakeven_row (fst c) (snd c) r r else r)"
    by (rule plan_kept_breakeven_row [OF Cons.prems(3)])
  from Cons.IH [OF d1 g1 k1] show ?case
    by (simp add: breakeven_passes_def)
qed

text \<open>
  Claim C9.  \<^verbatim>\<open>save_signal_to_db\<close> with stop \<open>S\<close> on a table with unique ids stores a row
  with original stop = current stop = \<open>S\<close>.  After any sequence of breakeven passes, with
  whatever clock readings and price feeds, the row still has the original stop \<open>S\<close>
  (in both columns that hold it), the entry and the target it was created with; its
  current stop is \<open>S\<close> while the breakeven flag is 0 and the entry once the flag is 1.
\<close>

theorem original_stop_immutable:
  assumes dist: "distinct (map signal_id db)"
    and save: "save_signal_to_db now sd db = (i, db')"
  shows "(\<exists>s. get_signal db' i = Some s \<and> original_stop_loss s = Some (sd_sl sd)
               \<and> current_stop_loss s = Some (sd_sl sd))
       \<and> (\<exists>r. get_signal (breakeven_passes cycles db') i = Some r
               \<and> original_stop_loss r = Some (sd_sl sd) \<and> stop_loss r = sd_sl sd
               \<and> entry_price r = sd_entry sd \<and> take_profit r = sd_tp sd
               \<and> (breakeven_triggered r = Some 0 \<and> current_stop_loss r = Some (sd_sl sd)
                  \<or> breakeven_triggered r = Some 1 \<and> current_stop_loss r = Some (sd_entry sd)))"
proof -
  note d = save_signal_to_db_distinct [OF dist save]
  have k0: "plan_kept sd (new_signal i now sd)"
    by (simp add: plan_kept_def new_signal_def)
  have first: "\<exists>s. get_signal db' i = Some s \<and> original_stop_loss s = Some (sd_sl sd)
               \<and> current_stop_loss s = Some (sd_sl sd)"
    using d(2) by (simp add: new_signal_def)
  from plan_kept_passes [OF d(1) d(2) k0]
  obtain r' where "get_signal (breakeven_passes cycles db') i = Some r'" "plan_kept sd r'"
    by blast
  then show ?thesis using first by (auto simp: plan_kept_def)
qed

text \<open>
  The sample long through three cycles at 1.1010, 1.1020 and 1.1030: the stop moves to
  entry in the second cycle and the original stop stays 1.0980.
\<close>

theorem original_stop_immutable_witness:
  "\<exists>r. get_signal
          (breakeven_passes [(60, single_feed ''EURUSD'' 1.1010), (120, single_feed ''EURUSD'' 1.1020),
                             (180, single_feed ''EURUSD'' 1.1030)]
             (snd (save_signal_to_db 0 eurusd_buy []))) 1 = Some r
       \<and> original_stop_loss r = Some 1.0980 \<and> stop_loss r = 1.0980
       \<and> entry_price r = 1.1000 \<and> take_profit r = 1.1050
       \<and> breakeven_triggered r = Some 1 \<and> current_stop_loss r = Some 1.1000"
proof -
  have save: "save_signal_to_db 0 eurusd_buy [] = (1, [new_signal 1 0 eurusd_buy])"
    by (simp add: save_signal_to_db_def next_signal_id_def)
  have run: "map breakeven_triggered (breakeven_passes [(60, single_feed ''EURUSD'' 1.1010), (120, single_feed ''EURUSD'' 1.1020),
                             (180, single_feed ''EURUSD'' 1.1030)] [new_signal 1 0 eurusd_buy]) = [Some 1]"
    by (simp add: breakeven_passes_def new_signal_def eurusd_buy_def
        check_breakeven_conditions_def breakeven_candidate_def
        breakeven_step_def single_feed_def breakeven_price_def
        update_stop_loss_to_breakeven_def get_signal_def update_signal_def)
  show ?thesis
    using original_stop_immutable [of "[]" 0 eurusd_buy 1 "[new_signal 1 0 eurusd_buy]"
        "[(60, single_feed ''EURUSD'' 1.1010), (120, single_feed ''EURUSD'' 1.1020),
                             (180, single_feed ''EURUSD'' 1.1030)]"] save run
    by (auto simp: eurusd_buy_def get_signal_def split: list.splits if_splits)
qed


subsection \<open>Admission: the daily win cap\<close>

lemma sum_list_indicator:
  "sum_list (map (\<lambda>s. if P s then 1 else 0) xs) = int (length (filter P xs))"
  by (induction xs) auto

lemma not_truthy_int: "\<not> truthy_int v \<longleftrightarrow> v = Some 0 \<or> v = None"
  by (cases v) (auto simp: truthy_int_def)

text \<open>
  The gate in terms of counts of rows; \<open>closed_today\<close> is the selection of the query.
\<close>

lemma daily_gate_by_counts:
  "(is_daily_analysis_allowed now db = False \<longleftrightarrow>
      3 \<le> int (length (filter (\<lambda>s. closed_today now s \<and> sig_result s = Some ''WIN'') db))
            - int (length (filter (\<lambda>s. closed_today now s \<and> sig_result s = Some ''LOSS'') db))
      \<and> (\<forall>s \<in> set db. \<not> (sig_status s = ''ACTIVE'' \<and> \<not> truthy_int (breakeven_triggered s))))
   \<and> ((\<exists>s \<in> set db. sig_status s = ''ACTIVE'' \<and> \<not> truthy_int (breakeven_triggered s))
        \<longrightarrow> is_daily_analysis_allowed now db = True)"
proof -
  have w: "sum_list (map (\<lambda>s. if sig_result s = Some ''WIN'' then 1 else 0)
                     (filter (closed_today now) db))
           = int (length (filter (\<lambda>s. closed_today now s \<and> sig_result s = Some ''WIN'') db))"
    by (simp add: sum_list_indicator conj_commute)
  have l: "sum_list (map (\<lambda>s. if sig_result s = Some ''LOSS'' then 1 else 0)
                     (filter (closed_today now) db))
           = int (length (filter (\<lambda>s. closed_today now s \<and> sig_result s = Some ''LOSS'') db))"
    by (simp add: sum_list_indicator conj_commute)
  have r: "risky_count (get_risky_active_trades db) = 0 \<longleftrightarrow>
           (\<forall>s \<in> set db. \<not> (sig_status s = ''ACTIVE'' \<and> \<not> truthy_int (breakeven_triggered s)))"
    unfolding get_risky_active_trades_def Let_def not_truthy_int
    by (auto simp: filter_empty_conv)
  have n: "net_wins (get_daily_net_wins now db)
           = int (length (filter (\<lambda>s. closed_today now s \<and> sig_result s = Some ''WIN'') db))
             - int (length (filter (\<lambda>s. closed_today now s \<and> sig_result s = Some ''LOSS'') db))"
    by (simp add: get_daily_net_wins_def Let_def w l)
  have a: "is_daily_analysis_allowed now db = False \<longleftrightarrow>
           3 \<le> net_wins (get_daily_net_wins now db) \<and> risky_count (get_risky_active_trades db) = 0"
    by (auto simp: is_daily_analysis_allowed_def Let_def)
  show ?thesis using a r n by auto
qed

text \<open>
  Claim C4, as the code has it.  The gate rejects exactly when today's net wins are at
  least 3 and no signal is risky, where today's net wins are the WIN rows minus the LOSS
  rows among the CLOSED signals that were created today (the query compares the creation
  timestamp, not the exit timestamp), and a signal is risky when it is ACTIVE and its
  breakeven flag is not set, whatever its symbol.  In particular the gate admits whenever
  a risky signal is open, also when the cap is reached.
\<close>

theorem daily_win_cap_gate:
  "(is_daily_analysis_allowed now db = False \<longleftrightarrow>
      3 \<le> int (length (filter (\<lambda>s. sig_status s = ''CLOSED''
                                     \<and> today_start now \<le> sig_timestamp s
                                     \<and> sig_timestamp s \<le> today_end now
                                     \<and> sig_result s = Some ''WIN'') db))
            - int (length (filter (\<lambda>s. sig_status s = ''CLOSED''
                                     \<and> today_start now \<le> sig_timestamp s
                                     \<and> sig_timestamp s \<le> today_end now
                                     \<and> sig_result s = Some ''LOSS'') db))
      \<and> (\<forall>s \<in> set db. \<not> (sig_status s = ''ACTIVE'' \<and> \<not> truthy_int (breakeven_triggered s))))
   \<and> ((\<exists>s \<in> set db. sig_status s = ''ACTIVE'' \<and> \<not> truthy_int (breakeven_triggered s))
        \<longrightarrow> is_daily_analysis_allowed now db = True)"
  using daily_gate_by_counts [of now db] by (simp add: closed_today_def conj_assoc)

text \<open>
  Three signals created and won today and nothing open: rejected.  The same with one more
  signal open and not yet at breakeven: admitted.
\<close>

theorem daily_win_cap_gate_witness:
  "is_daily_analysis_allowed 3600
     [closed_with ''WIN'' 600 (new_signal 1 0 eurusd_buy),
      closed_with ''WIN'' 1200 (new_signal 2 10 eurusd_buy),
      closed_with ''WIN'' 1800 (new_signal 3 20 eurusd_buy)] = False
   \<and> is_daily_analysis_allowed 3600
     [closed_with ''WIN'' 600 (new_signal 1 0 eurusd_buy),
      closed_with ''WIN'' 1200 (new_signal 2 10 eurusd_buy),
      closed_with ''WIN'' 1800 (new_signal 3 20 eurusd_buy), new_signal 4 30 eurusd_buy] = True"
  using daily_win_cap_gate [of 3600
          "[closed_with ''WIN'' 600 (new_signal 1 0 eurusd_buy),
            closed_with ''WIN'' 1200 (new_signal 2 10 eurusd_buy),
            closed_with ''WIN'' 1800 (new_signal 3 20 eurusd_buy)]"]
    daily_win_cap_gate [of 3600
          "[closed_with ''WIN'' 600 (new_signal 1 0 eurusd_buy),
            closed_with ''WIN'' 1200 (new_signal 2 10 eurusd_buy),
            closed_with ''WIN'' 1800 (new_signal 3 20 eurusd_buy), new_signal 4 30 eurusd_buy]"]
  by (simp add: closed_with_def new_signal_def today_start_def today_end_def truthy_int_def)

text \<open>
  Claim C4 as stated fails for a trade held over midnight.  The day of the clock reading
  100000 begins at 86400.  Three signals were closed as WIN during that day, at 90000,
  91000 and 92000, with no loss and nothing open, so the day's wins minus losses are 3 and
  no signal is risky; the first of them was created at 86390, ten seconds before
  midnight.  The query counts two wins and the gate admits.
\<close>

theorem daily_win_cap_counterexample:
  "today_start 100000 = 86400
   \<and> map sig_status
        [closed_with ''WIN'' 90000 (new_signal 1 86390 eurusd_buy),
         closed_with ''WIN'' 91000 (new_signal 2 86500 eurusd_buy),
         closed_with ''WIN'' 92000 (new_signal 3 86600 eurusd_buy)]
       = [''CLOSED'', ''CLOSED'', ''CLOSED'']
   \<and> map sig_result
        [closed_with ''WIN'' 90000 (new_signal 1 86390 eurusd_buy),
         closed_with ''WIN'' 91000 (new_signal 2 86500 eurusd_buy),
         closed_with ''WIN'' 92000 (new_signal 3 86600 eurusd_buy)]
       = [Some ''WIN'', Some ''WIN'', Some ''WIN'']
   \<and> map exit_timestamp
        [closed_with ''WIN'' 90000 (new_signal 1 86390 eurusd_buy),
         closed_with ''WIN'' 91000 (new_signal 2 86500 eurusd_buy),
         closed_with ''WIN'' 92000 (new_signal 3 86600 eurusd_buy)]
       = [Some 90000, Some 91000, Some 92000]
   \<and> is_daily_analysis_allowed 100000
        [closed_with ''WIN'' 90000 (new_signal 1 86390 eurusd_buy),
         closed_with ''WIN'' 91000 (new_signal 2 86500 eurusd_buy),
         closed_with ''WIN'' 92000 (new_signal 3 86600 eurusd_buy)] = True"
  by (simp add: is_daily_analysis_allowed_def get_daily_net_wins_def get_risky_active_trades_def
        closed_today_def today_start_def today_end_def closed_with_def new_signal_def Let_def)

subsection \<open>Trigger evaluation\<close>

text \<open>
  Claim C5, as the code has it.  For a trigger of type range_edge_reject with a level and a
  direction, and an available price, the condition is met exactly when the price is within
  the slop of the level (0.5 divided by the symbol's pip multiplier) and the direction is
  bullish or bearish.  With the direction above or below it is never met.
\<close>

theorem range_edge_reject_condition:
  assumes "nt_type t = Some ''range_edge_reject''" and "nt_level t = Some level"
    and "nt_direction t = Some direction" and "feed symbol = Some price"
  shows "fst (eval_trigger feed t symbol) \<longleftrightarrow>
           \<bar>price - level\<bar> \<le> 0.5 / of_int (get_pip_multiplier symbol)
           \<and> (direction = ''bullish'' \<or> direction = ''bearish'')"
  using assms by (auto simp: eval_trigger_def Let_def)

text \<open>
  The bearish range-edge trigger at 1.0850 on EURUSD (slop 0.00005): met at 1.0850, not met
  at 1.0852.
\<close>

theorem range_edge_reject_condition_witness:
  "fst (eval_trigger (single_feed ''EURUSD'' 1.0850) (edge_trigger ''bearish'') ''EURUSD'')
   \<and> \<not> fst (eval_trigger (single_feed ''EURUSD'' 1.0852) (edge_trigger ''bearish'') ''EURUSD'')"
  using range_edge_reject_condition [of "edge_trigger ''bearish''" "1.0850" "''bearish''"
           "single_feed ''EURUSD'' 1.0850" "''EURUSD''" "1.0850"]
        range_edge_reject_condition [of "edge_trigger ''bearish''" "1.0850" "''bearish''"
           "single_feed ''EURUSD'' 1.0852" "''EURUSD''" "1.0852"]
  by (simp add: edge_trigger_def single_feed_def get_pip_multiplier_def upper_def upper_char_def
        gold_terms_def jpy_pairs_def)

text \<open>
  Claim C5 as stated fails: at the price 1.0850, on the level, the trigger with the
  direction bullish is met and the same trigger with the direction above is not, so the
  direction does affect the verdict.
\<close>

theorem range_edge_direction_counterexample:
  "\<bar>1.0850 - 1.0850\<bar> \<le> 0.5 / real_of_int (get_pip_multiplier ''EURUSD'')
   \<and> fst (eval_trigger (single_feed ''EURUSD'' 1.0850) (edge_trigger ''bullish'') ''EURUSD'')
   \<and> \<not> fst (eval_trigger (single_feed ''EURUSD'' 1.0850) (edge_trigger ''above'') ''EURUSD'')"
  by (simp add: eval_trigger_def edge_trigger_def single_feed_def get_pip_multiplier_def
        upper_def upper_char_def gold_terms_def jpy_pairs_def)

subsection \<open>Trigger expiry\<close>





subsection \<open>The watcher's loop as a map over the rows\<close>

lemma find_by_key_subset:
  "distinct (map key db) \<Longrightarrow> set as \<subseteq> set db \<Longrightarrow> r \<in> set db \<Longrightarrow>
   find (\<lambda>a. key a = key r) as = (if r \<in> set as then Some r else None)"
proof (induction as)
  case Nil
  then show ?case by simp
next
  case (Cons x as)
  have xin: "x \<in> set db" using Cons.prems(2) by simp
  show ?case
  proof (cases "key x = key r")
    case True
    then have "x = r" using same_key_same_row [OF Cons.prems(1) xin Cons.prems(3)] by simp
    then show ?thesis by simp
  next
    case False
    then have "x \<noteq> r" by auto
    then show ?thesis using False Cons by simp
  qed
qed

lemma fold_subset_by_key:
  fixes key :: "'r \<Rightarrow> nat"
  assumes step: "\<And>a db. distinct (map key db) \<Longrightarrow>
                   step a db = map (\<lambda>r. if key r = key a then g a r else r) db"
    and keyg: "\<And>a r. key (g a r) = key r"
    and dist: "distinct (map key db)"
    and das: "distinct (map key as)"
    and sub: "set as \<subseteq> set db"
  shows "fold step as db = map (\<lambda>r. if r \<in> set as then g r r else r) db"
proof -
  have "fold step as db =
      map (\<lambda>r. case find (\<lambda>a. key a = key r) as of None \<Rightarrow> r | Some a \<Rightarrow> g a r) db"
    using fold_by_key [of key step g, OF step keyg das dist] by blast
  also have "\<dots> = map (\<lambda>r. if r \<in> set as then g r r else r) db"
    by (rule map_cong) (simp_all add: find_by_key_subset [OF dist sub])
  finally show ?thesis .
qed

lemma trigger_id_marked [simp]: "trigger_id (marked now st res reason r) = trigger_id r"
  by (simp add: marked_def)

lemma trigger_id_trigger_after [simp]: "trigger_id (trigger_after now feed re t r) = trigger_id r"
  by (simp add: trigger_after_def)

lemma trigger_step_rowwise:
  "trigger_step now feed re t db
   = map (\<lambda>r. if trigger_id r = trigger_id t then trigger_after now feed re t r else r) db"
proof (cases "eval_trigger feed (trigger_json t) (trg_symbol t)")
  case (Pair met reason)
  then show ?thesis
    by (cases "re (trg_symbol t) (trigger_json t)")
       (simp_all add: trigger_step_def trigger_after_def mark_trigger_status_def
          is_news_window_def Let_def cong: if_cong)
qed

lemma get_pending_triggers_set:
  "set (get_pending_triggers db) = {r \<in> set db. trg_status r = ''PENDING''}"
  by (auto simp: get_pending_triggers_def)

lemma get_pending_triggers_distinct:
  assumes "distinct (map trigger_id db)"
  shows "distinct (map trigger_id (get_pending_triggers db))"
proof -
  have "distinct (map trigger_id (filter (\<lambda>r. trg_status r = ''PENDING'') db))"
    using assms by (rule distinct_map_filter)
  then show ?thesis
    unfolding get_pending_triggers_def distinct_map by (simp)
qed

lemma process_pending_triggers_rowwise:
  assumes "distinct (map trigger_id db)"
  shows "process_pending_triggers now feed re db
         = map (\<lambda>r. if trg_status r = ''PENDING'' then trigger_after now feed re r r else r) db"
proof -
  have "process_pending_triggers now feed re db
        = map (\<lambda>r. if r \<in> set (get_pending_triggers db) then trigger_after now feed re r r else r) db"
    unfolding process_pending_triggers_def
    by (rule fold_subset_by_key [where key = trigger_id and g = "trigger_after now feed re"])
       (auto simp: trigger_step_rowwise assms get_pending_triggers_distinct get_pending_triggers_set)
  also have "\<dots> = map (\<lambda>r. if trg_status r = ''PENDING'' then trigger_after now feed re r r else r) db"
    by (rule map_cong) (simp_all add: get_pending_triggers_set)
  finally show ?thesis .
qed

lemma get_trigger_unique:
  "distinct (map trigger_id db) \<Longrightarrow> r \<in> set db \<Longrightarrow> get_trigger db (trigger_id r) = Some r"
  unfolding get_trigger_def
proof (induction db)
  case Nil
  then show ?case by simp
next
  case (Cons x db)
  then show ?case by (auto simp: image_iff)
qed

lemma get_trigger_map:
  "(\<And>r. trigger_id (h r) = trigger_id r) \<Longrightarrow>
   get_trigger (map h db) i = map_option h (get_trigger db i)"
  unfolding get_trigger_def by (induction db) auto

lemma get_trigger_after_pass:
  assumes "distinct (map trigger_id db)" "t \<in> set db"
  shows "get_trigger (process_pending_triggers now feed re db) (trigger_id t)
         = Some (if trg_status t = ''PENDING'' then trigger_after now feed re t t else t)"
proof -
  have "get_trigger (process_pending_triggers now feed re db) (trigger_id t)
        = map_option (\<lambda>r. if trg_status r = ''PENDING'' then trigger_after now feed re r r else r)
            (get_trigger db (trigger_id t))"
    unfolding process_pending_triggers_rowwise [OF assms(1)]
    by (rule get_trigger_map) simp
  then show ?thesis using get_trigger_unique [OF assms] by simp
qed

subsection \<open>A fired trigger whose re-analysis fails\<close>

text \<open>The row of a fired trigger after a pass in which the model call fails.\<close>

lemma failed_reanalysis_row:
  assumes dist: "distinct (map trigger_id db)" and tin: "t \<in> set db"
    and pend: "trg_status t = ''PENDING''"
    and live: "now \<le> expiry_ts t"
    and hours: "is_valid_trading_time now"
    and met: "eval_trigger feed (trigger_json t) (trg_symbol t) = (True, reason)"
    and fail: "reanalyze (trg_symbol t) (trigger_json t) = None"
  shows "get_trigger (process_pending_triggers now feed reanalyze db) (trigger_id t)
           = Some (t\<lparr> trg_status := ''CONSUMED'', consumed_at := Some now,
                      trg_result := Some ''ERROR'', trg_fire_reason := Some reason \<rparr>)
         \<and> trigger_id t \<notin> trigger_id `
              set (get_pending_triggers (process_pending_triggers now feed reanalyze db))"
proof -
  let ?db' = "process_pending_triggers now feed reanalyze db"
  let ?t' = "t\<lparr> trg_status := ''CONSUMED'', consumed_at := Some now,
                 trg_result := Some ''ERROR'', trg_fire_reason := Some reason \<rparr>"
  have row: "get_trigger ?db' (trigger_id t) = Some ?t'"
    using pend live hours met fail
    by (simp add: get_trigger_after_pass [OF dist tin] trigger_after_def marked_def
          is_news_window_def)
  have ids: "map trigger_id ?db' = map trigger_id db"
    unfolding process_pending_triggers_rowwise [OF dist] by simp
  then have dist': "distinct (map trigger_id ?db')" using dist by simp
  have "r \<in> set ?db' \<Longrightarrow> trigger_id r = trigger_id t \<Longrightarrow> trg_status r \<noteq> ''PENDING''" for r
  proof -
    assume rin: "r \<in> set ?db'" and rid: "trigger_id r = trigger_id t"
    from get_trigger_unique [OF dist' rin] rid row have "r = ?t'" by simp
    then show "trg_status r \<noteq> ''PENDING''" by simp
  qed
  then have "trigger_id t \<notin> trigger_id ` set (get_pending_triggers ?db')"
    by (auto simp: get_pending_triggers_set)
  then show ?thesis using row by simp
qed

text \<open>A pending trigger that the pass skips is left as it was.\<close>

lemma skipped_trigger_row:
  assumes dist: "distinct (map trigger_id db)" and tin: "t \<in> set db"
    and live: "now \<le> expiry_ts t"
    and skip: "\<not> is_valid_trading_time now
               \<or> \<not> fst (eval_trigger feed (trigger_json t) (trg_symbol t))"
  shows "get_trigger (process_pending_triggers now feed reanalyze db) (trigger_id t) = Some t"
  using live skip
  by (auto simp: get_trigger_after_pass [OF dist tin] trigger_after_def)

lemma no_price_not_met: "feed symbol = None \<Longrightarrow> \<not> fst (eval_trigger feed trigger symbol)"
  by (simp add: eval_trigger_def)

text \<open>
  Claim C6, as the code has it.  Take a table with unique ids and a PENDING trigger that
  has not expired.  If the pass runs inside trading hours, the trigger's condition is met
  with some explanation and the re-analysis fails, the pass marks the trigger CONSUMED with
  the result ERROR, the explanation as fire_reason and the time of the pass; the trigger is
  no longer among the pending triggers, so no later cycle evaluates it again.  If the pass
  runs outside trading hours, or the condition is not met, the trigger is left as it was,
  PENDING; and the condition is not met when no price is available.
\<close>

theorem failed_reanalysis_consumes:
  assumes dist: "distinct (map trigger_id db)" and tin: "t \<in> set db"
    and pend: "trg_status t = ''PENDING''"
    and live: "now \<le> expiry_ts t"
  shows "(is_valid_trading_time now
          \<and> eval_trigger feed (trigger_json t) (trg_symbol t) = (True, reason)
          \<and> reanalyze (trg_symbol t) (trigger_json t) = None \<longrightarrow>
            get_trigger (process_pending_triggers now feed reanalyze db) (trigger_id t)
              = Some (t\<lparr> trg_status := ''CONSUMED'', consumed_at := Some now,
                         trg_result := Some ''ERROR'', trg_fire_reason := Some reason \<rparr>)
            \<and> trigger_id t \<notin> trigger_id `
                 set (get_pending_triggers (process_pending_triggers now feed reanalyze db)))
       \<and> (\<not> is_valid_trading_time now
          \<or> \<not> fst (eval_trigger feed (trigger_json t) (trg_symbol t)) \<longrightarrow>
            get_trigger (process_pending_triggers now feed reanalyze db) (trigger_id t) = Some t)
       \<and> (feed (trg_symbol t) = None \<longrightarrow>
            \<not> fst (eval_trigger feed (trigger_json t) (trg_symbol t)))"
  using failed_reanalysis_row [OF dist tin pend live, of feed reason reanalyze]
    skipped_trigger_row [OF dist tin live, of feed reanalyze]
    no_price_not_met [of feed "trg_symbol t" "trigger_json t"]
  by blast

text \<open>
  The scenario's retest trigger, saved at 10:00, evaluated at 10:02 with the price on the
  level and a model call that fails.
\<close>

theorem failed_reanalysis_consumes_witness:
  "get_trigger (process_pending_triggers 36120 (single_feed ''EURUSD'' 1.0835) failing_model
                  (snd (save_trigger 0 36000 ''EURUSD'' (wait_with retest_trigger) []))) 1
   = Some \<lparr> trigger_id = 1, trg_symbol = ''EURUSD'', trg_created_at = 36000,
            trigger_json = retest_trigger, trg_playbook = ''unknown'',
            trg_setup_type = Some ''retest_hold'', expiry_ts = 43200,
            trg_status = ''CONSUMED'', consumed_at = Some 36120, trg_result = Some ''ERROR'',
            trg_fire_reason = Some (RetestBullish 1.0835 1.0835) \<rparr>"
proof -
  let ?t = "\<lparr> trigger_id = 1, trg_symbol = ''EURUSD'', trg_created_at = 36000,
            trigger_json = retest_trigger, trg_playbook = ''unknown'',
            trg_setup_type = Some ''retest_hold'', expiry_ts = 43200,
            trg_status = ''PENDING'', consumed_at = None, trg_result = None,
            trg_fire_reason = None \<rparr>"
  have db: "snd (save_trigger 0 36000 ''EURUSD'' (wait_with retest_trigger) []) = [?t]"
    by (simp add: save_trigger_def wait_with_def retest_trigger_def next_trigger_id_def
          tf_minutes_def)
  have met: "eval_trigger (single_feed ''EURUSD'' 1.0835) (trigger_json ?t) (trg_symbol ?t)
             = (True, RetestBullish 1.0835 1.0835)"
    by (simp add: eval_trigger_def retest_trigger_def single_feed_def get_pip_multiplier_def
          upper_def upper_char_def gold_terms_def jpy_pairs_def)
  have hours: "is_valid_trading_time 36120"
    by (simp add: is_valid_trading_time_def)
  have fail: "failing_model (trg_symbol ?t) (trigger_json ?t) = None"
    by (simp add: failing_model_def)
  have "get_trigger (process_pending_triggers 36120 (single_feed ''EURUSD'' 1.0835)
                       failing_model [?t]) (trigger_id ?t)
        = Some (?t\<lparr> trg_status := ''CONSUMED'', consumed_at := Some 36120,
                     trg_result := Some ''ERROR'',
                     trg_fire_reason := Some (RetestBullish 1.0835 1.0835) \<rparr>)"
    using failed_reanalysis_consumes [where db = "[?t]" and t = ?t and now = 36120
            and feed = "single_feed ''EURUSD'' 1.0835"
            and reason = "RetestBullish 1.0835 1.0835" and reanalyze = failing_model]
      hours met fail
    by simp
  then show ?thesis by (simp add: db)
qed

text \<open>
  Claim C6 as stated fails on the same input: the condition is met, the model call fails,
  and the trigger that was PENDING before the pass is CONSUMED with result ERROR after it.
\<close>

theorem failed_reanalysis_counterexample:
  "fst (eval_trigger (single_feed ''EURUSD'' 1.0835) retest_trigger ''EURUSD'')
   \<and> map trg_status (snd (save_trigger 0 36000 ''EURUSD'' (wait_with retest_trigger) []))
       = [''PENDING'']
   \<and> map trg_status
        (process_pending_triggers 36120 (single_feed ''EURUSD'' 1.0835) failing_model
           (snd (save_trigger 0 36000 ''EURUSD'' (wait_with retest_trigger) [])))
       = [''CONSUMED'']
   \<and> map trg_result
        (process_pending_triggers 36120 (single_feed ''EURUSD'' 1.0835) failing_model
           (snd (save_trigger 0 36000 ''EURUSD'' (wait_with retest_trigger) [])))
       = [Some ''ERROR'']"
  by (simp add: save_trigger_def wait_with_def retest_trigger_def next_trigger_id_def
        tf_minutes_def process_pending_triggers_def get_pending_triggers_def trigger_step_def
        is_valid_trading_time_def is_news_window_def eval_trigger_def single_feed_def
        get_pip_multiplier_def upper_def upper_char_def gold_terms_def jpy_pairs_def
        failing_model_def mark_trigger_status_def marked_def)

subsection \<open>The trigger store along a history\<close>

lemma next_trigger_id_fresh: "r \<in> set db \<Longrightarrow> trigger_id r < next_trigger_id db"
  using fold_max_upper [of 0 "map trigger_id db"] by (auto simp: next_trigger_id_def less_Suc_eq_le)

lemma trigger_id_supersede [simp]: "trigger_id (supersede now symbol r) = trigger_id r"
  by (simp add: supersede_def)

lemma trigger_id_clear_row [simp]: "trigger_id (clear_row now symbol reason r) = trigger_id r"
  by (simp add: clear_row_def)

text \<open>The shape of a saving call.\<close>

lemma save_trigger_shape:
  "save_trigger utc_offset now symbol a db = (False, db)
   \<or> (\<exists>new. save_trigger utc_offset now symbol a db = (True, map (supersede now symbol) db @ [new])
         \<and> trigger_id new = next_trigger_id db \<and> trg_symbol new = symbol
         \<and> trg_status new = ''PENDING'')"
  unfolding save_trigger_def Let_def by (simp split: option.splits)

lemma save_trigger_cases:
  obtains (unsaved) "save_trigger utc_offset now symbol a db = (False, db)"
  | (saved) new where "save_trigger utc_offset now symbol a db = (True, map (supersede now symbol) db @ [new])"
      "trigger_id new = next_trigger_id db" "trg_symbol new = symbol"
      "trg_status new = ''PENDING''"
  using save_trigger_shape [of utc_offset now symbol a db] by blast

lemma pending_for_supersede_same: "pending_for symbol (map (supersede now symbol) db) = []"
  by (induction db) (auto simp: pending_for_def supersede_def)

lemma pending_for_supersede_other:
  "symbol' \<noteq> symbol \<Longrightarrow>
   pending_for symbol' (map (supersede now symbol) db) = pending_for symbol' db"
  by (induction db) (auto simp: pending_for_def supersede_def)

lemma pending_for_clear_same: "pending_for symbol (map (clear_row now symbol reason) db) = []"
  by (induction db) (auto simp: pending_for_def clear_row_def)

lemma pending_for_clear_other:
  "symbol' \<noteq> symbol \<Longrightarrow>
   pending_for symbol' (map (clear_row now symbol reason) db) = pending_for symbol' db"
  by (induction db) (auto simp: pending_for_def clear_row_def)

lemma pending_for_shrinks:
  assumes "\<And>r. trg_symbol (h r) = trg_symbol r"
    and "\<And>r. trg_status (h r) = ''PENDING'' \<Longrightarrow> trg_status r = ''PENDING''"
  shows "length (pending_for symbol (map h db)) \<le> length (pending_for symbol db)"
proof (induction db)
  case Nil
  then show ?case by (simp add: pending_for_def)
next
  case (Cons x db)
  then show ?case using assms by (auto simp: pending_for_def)
qed

lemma trigger_after_symbol [simp]: "trg_symbol (trigger_after now feed re t r) = trg_symbol r"
  by (simp add: trigger_after_def marked_def)

lemma store_ok_save:
  assumes "store_ok db"
  shows "store_ok (snd (save_trigger utc_offset now symbol a db))"
proof (cases rule: save_trigger_cases [of utc_offset now symbol a db])
  case unsaved
  then show ?thesis using assms by simp
next
  case (saved new)
  have fresh: "trigger_id new \<notin> trigger_id ` set db"
    using next_trigger_id_fresh saved(2) by fastforce
  have d: "distinct (map trigger_id (map (supersede now symbol) db @ [new]))"
    using assms fresh by (simp add: store_ok_def comp_def)
  have p: "length (pending_for symbol' (map (supersede now symbol) db @ [new])) \<le> 1" for symbol'
  proof (cases "symbol' = symbol")
    case True
    have "pending_for symbol (map (supersede now symbol) db @ [new])
          = pending_for symbol (map (supersede now symbol) db) @ pending_for symbol [new]"
      by (simp add: pending_for_def)
    then show ?thesis using True by (simp add: pending_for_supersede_same) (simp add: pending_for_def)
  next
    case False
    have "pending_for symbol' (map (supersede now symbol) db @ [new])
          = pending_for symbol' (map (supersede now symbol) db) @ pending_for symbol' [new]"
      by (simp add: pending_for_def)
    moreover have "pending_for symbol' [new] = []"
      using False saved(3) by (simp add: pending_for_def)
    ultimately show ?thesis
      using assms False by (simp add: pending_for_supersede_other store_ok_def)
  qed
  have s: "\<forall>r \<in> set (map (supersede now symbol) db @ [new]). trg_status r \<in> trigger_statuses"
    using assms saved(4) by (auto simp: store_ok_def supersede_def trigger_statuses_def)
  show ?thesis using d p s by (simp add: saved(1) store_ok_def)
qed

lemma store_ok_clear:
  assumes "store_ok db"
  shows "store_ok (snd (clear_pending_triggers now symbol reason db))"
proof -
  have d: "distinct (map trigger_id (map (clear_row now symbol reason) db))"
    using assms by (simp add: store_ok_def comp_def)
  have p: "length (pending_for symbol' (map (clear_row now symbol reason) db)) \<le> 1" for symbol'
    using assms
    by (cases "symbol' = symbol")
       (simp_all add: pending_for_clear_same pending_for_clear_other store_ok_def)
  have s: "\<forall>r \<in> set (map (clear_row now symbol reason) db). trg_status r \<in> trigger_statuses"
    using assms by (auto simp: store_ok_def clear_row_def trigger_statuses_def)
  show ?thesis using d p s by (simp add: clear_pending_triggers_def store_ok_def)
qed

lemma terminal_in_statuses:
  "''EXPIRED'' \<in> trigger_statuses" "''CONSUMED'' \<in> trigger_statuses"
  by (simp_all add: trigger_statuses_def)

lemma store_ok_process:
  assumes "store_ok db"
  shows "store_ok (process_pending_triggers now feed re db)"
proof -
  let ?h = "\<lambda>r. if trg_status r = ''PENDING'' then trigger_after now feed re r r else r"
  have dist: "distinct (map trigger_id db)" using assms by (simp add: store_ok_def)
  have eq: "process_pending_triggers now feed re db = map ?h db"
    by (rule process_pending_triggers_rowwise [OF dist])
  have "map trigger_id (map ?h db) = map trigger_id db"
    by (induction db) simp_all
  then have d: "distinct (map trigger_id (map ?h db))"
    using dist by (simp only:)
  have st: "trg_status (?h r) = ''PENDING'' \<Longrightarrow> trg_status r = ''PENDING''" for r
    by (cases "trg_status r = ''PENDING''") simp_all
  have sy: "trg_symbol (?h r) = trg_symbol r" for r
    by simp
  have p: "length (pending_for symbol (map ?h db)) \<le> 1" for symbol
  proof -
    have "length (pending_for symbol (map ?h db)) \<le> length (pending_for symbol db)"
      using sy st by (rule pending_for_shrinks)
    moreover have "length (pending_for symbol db) \<le> 1"
      using assms by (simp add: store_ok_def)
    ultimately show ?thesis by linarith
  qed
  have s: "\<forall>r \<in> set (map ?h db). trg_status r \<in> trigger_statuses"
  proof
    fix r' assume "r' \<in> set (map ?h db)"
    then obtain r where r: "r \<in> set db" "r' = ?h r" by auto
    have old: "trg_status r \<in> trigger_statuses" using assms r(1) by (simp add: store_ok_def)
    have "trg_status (trigger_after now feed re r r) \<in> trigger_statuses"
      using old by (simp add: trigger_after_def marked_def terminal_in_statuses)
    then show "trg_status r' \<in> trigger_statuses"
      using old r(2) by (cases "trg_status r = ''PENDING''") simp_all
  qed
  show ?thesis unfolding eq store_ok_def using d p s by blast
qed

lemma store_ok_empty: "store_ok []"
  by (simp add: store_ok_def pending_for_def)

text \<open>One write of the watcher, for any fetched row, keeps the invariant.\<close>

lemma store_ok_watch:
  assumes "store_ok db"
  shows "store_ok (trigger_step now feed re t db)"
proof -
  let ?h = "\<lambda>r. if trigger_id r = trigger_id t then trigger_after now feed re t r else r"
  have eq: "trigger_step now feed re t db = map ?h db"
    by (rule trigger_step_rowwise)
  have dist: "distinct (map trigger_id db)" using assms by (simp add: store_ok_def)
  have "map trigger_id (map ?h db) = map trigger_id db"
    by (induction db) simp_all
  then have d: "distinct (map trigger_id (map ?h db))"
    using dist by (simp only:)
  have keep: "trg_status (trigger_after now feed re t r) = ''PENDING'' \<Longrightarrow> trg_status r = ''PENDING''"
    for r
    by (simp add: trigger_after_def marked_def split: if_splits)
  have st: "trg_status (?h r) = ''PENDING'' \<Longrightarrow> trg_status r = ''PENDING''" for r
    using keep [of r] by (cases "trigger_id r = trigger_id t") simp_all
  have sy: "trg_symbol (?h r) = trg_symbol r" for r
    by simp
  have p: "length (pending_for symbol (map ?h db)) \<le> 1" for symbol
  proof -
    have "length (pending_for symbol (map ?h db)) \<le> length (pending_for symbol db)"
      using sy st by (rule pending_for_shrinks)
    moreover have "length (pending_for symbol db) \<le> 1"
      using assms by (simp add: store_ok_def)
    ultimately show ?thesis by linarith
  qed
  have s: "\<forall>r \<in> set (map ?h db). trg_status r \<in> trigger_statuses"
  proof
    fix r' assume "r' \<in> set (map ?h db)"
    then obtain r where r: "r \<in> set db" "r' = ?h r" by auto
    have old: "trg_status r \<in> trigger_statuses" using assms r(1) by (simp add: store_ok_def)
    have "trg_status (trigger_after now feed re t r) \<in> trigger_statuses"
      using old by (simp add: trigger_after_def marked_def terminal_in_statuses)
    then show "trg_status r' \<in> trigger_statuses"
      using old r(2) by (cases "trigger_id r = trigger_id t") simp_all
  qed
  show ?thesis unfolding eq store_ok_def using d p s by blast
qed

text \<open>
  Whatever the two threads do in whatever order, every symbol has at most one PENDING
  trigger, ids stay unique and every status is one of the five.
\<close>

lemma store_ok_step: "store_step st st' \<Longrightarrow> store_ok (fst st) \<Longrightarrow> store_ok (fst st')"
  by (induction rule: store_step.induct)
     (simp_all add: store_ok_save store_ok_clear store_ok_watch)

lemma store_ok_reached: "reached st \<Longrightarrow> store_ok (fst st)"
  by (induction rule: reached.induct) (simp_all add: store_ok_empty store_ok_step)

lemma one_pending_per_symbol:
  "reached (db, todo) \<Longrightarrow> length (pending_for symbol db) \<le> 1"
  using store_ok_reached [of "(db, todo)"] by (simp add: store_ok_def)

text \<open>A pass of the watcher with no request in between is a run of steps.\<close>

lemma reached_watch_all:
  "reached (db, todo) \<Longrightarrow> reached (fold (trigger_step now feed re) todo db, [])"
proof (induction todo arbitrary: db)
  case Nil
  then show ?case by simp
next
  case (Cons t todo)
  have "reached (trigger_step now feed re t db, todo)"
    using Cons.prems by (rule reached_step) (rule step_watch)
  from Cons.IH [OF this] show ?case by simp
qed

lemma reached_process:
  assumes "reached (db, [])"
  shows "reached (process_pending_triggers now feed re db, [])"
proof -
  have "reached (db, get_pending_triggers db)"
    using assms by (rule reached_step) (rule step_fetch)
  then show ?thesis
    unfolding process_pending_triggers_def by (rule reached_watch_all)
qed

text \<open>
  A row that has left PENDING is not written by \<^verbatim>\<open>save_trigger\<close>, nor by
  \<^verbatim>\<open>clear_pending_triggers\<close>, nor by a pass of the watcher that no request interrupts.
\<close>

lemma whole_calls_keep_terminal:
  assumes "distinct (map trigger_id db)"
    and "k < length db" and "trg_status (db ! k) \<noteq> ''PENDING''"
  shows "snd (save_trigger utc_offset now symbol a db) ! k = db ! k"
    and "snd (clear_pending_triggers now symbol reason db) ! k = db ! k"
    and "process_pending_triggers now feed re db ! k = db ! k"
proof -
  show "snd (save_trigger utc_offset now symbol a db) ! k = db ! k"
  proof (cases rule: save_trigger_cases [of utc_offset now symbol a db])
    case unsaved
    then show ?thesis by simp
  next
    case (saved new)
    then show ?thesis using assms by (simp add: nth_append supersede_def)
  qed
  show "snd (clear_pending_triggers now symbol reason db) ! k = db ! k"
    using assms by (simp add: clear_pending_triggers_def clear_row_def)
  show "process_pending_triggers now feed re db ! k = db ! k"
    using assms by (simp add: process_pending_triggers_rowwise)
qed

text \<open>
  Claim C8 on the sample history.  The first WAIT answer leaves one PENDING row.  The
  watcher fetches it.  The second WAIT answer turns it into SUPERSEDED and adds the new
  PENDING row.  The watcher then handles the row it had fetched: its condition is met, and
  the write by id turns the SUPERSEDED row into CONSUMED with the result ERROR.  The table
  at the end is one that the two threads reach, and the first trigger has left PENDING
  twice.
\<close>

theorem stale_snapshot_overwrites_superseded:
  "reached (stale_watch_db, [])
   \<and> map trg_status first_wait_db = [''PENDING'']
   \<and> map trigger_id (get_pending_triggers first_wait_db) = [1]
   \<and> map trigger_id second_wait_db = [1, 2]
   \<and> map trg_status second_wait_db = [''SUPERSEDED'', ''PENDING'']
   \<and> map trigger_id stale_watch_db = [1, 2]
   \<and> map trg_status stale_watch_db = [''CONSUMED'', ''PENDING'']
   \<and> map trg_result stale_watch_db = [Some ''ERROR'', None]"
proof -
  have r1: "reached (first_wait_db, [])"
    unfolding first_wait_db_def by (rule reached_step [OF reached_init]) (rule step_save)
  have r2: "reached (first_wait_db, get_pending_triggers first_wait_db)"
    using r1 by (rule reached_step) (rule step_fetch)
  have r3: "reached (second_wait_db, get_pending_triggers first_wait_db)"
    unfolding second_wait_db_def using r2 by (rule reached_step) (rule step_save)
  have r4: "reached (stale_watch_db, [])"
    unfolding stale_watch_db_def using r3 by (rule reached_watch_all)
  have first: "first_wait_db =
      [\<lparr> trigger_id = 1, trg_symbol = ''EURUSD'', trg_created_at = 36000,
         trigger_json = retest_trigger, trg_playbook = ''unknown'',
         trg_setup_type = Some ''retest_hold'', expiry_ts = 43200,
         trg_status = ''PENDING'', consumed_at = None, trg_result = None,
         trg_fire_reason = None \<rparr>]"
    by (simp add: first_wait_db_def save_trigger_def wait_with_def retest_trigger_def
          next_trigger_id_def tf_minutes_def)
  have fetched: "get_pending_triggers first_wait_db = first_wait_db"
    by (simp add: first get_pending_triggers_def)
  have second: "map trigger_id second_wait_db = [1, 2]
                \<and> map trg_status second_wait_db = [''SUPERSEDED'', ''PENDING'']"
    by (simp add: second_wait_db_def first save_trigger_def wait_with_def edge_trigger_def
          next_trigger_id_def supersede_def)
  have last: "stale_watch_db
              = mark_trigger_status 36120 1 ''CONSUMED'' (Some ''ERROR'')
                  (Some (RetestBullish 1.0835 1.0835)) second_wait_db"
    by (simp add: stale_watch_db_def fetched)
       (simp add: first trigger_step_def is_valid_trading_time_def is_news_window_def
          failing_model_def eval_trigger_def retest_trigger_def single_feed_def
          get_pip_multiplier_def upper_def upper_char_def gold_terms_def jpy_pairs_def)
  have third: "map trigger_id stale_watch_db = [1, 2]
               \<and> map trg_status stale_watch_db = [''CONSUMED'', ''PENDING'']
               \<and> map trg_result stale_watch_db = [Some ''ERROR'', None]"
    unfolding last
    by (simp add: second_wait_db_def first save_trigger_def wait_with_def edge_trigger_def
          next_trigger_id_def supersede_def mark_trigger_status_def marked_def)
  have zero: "map trg_status first_wait_db = [''PENDING'']
              \<and> map trigger_id (get_pending_triggers first_wait_db) = [1]"
    unfolding fetched by (simp add: first)
  show ?thesis using r4 zero second third by blast
qed

subsection \<open>The scenarios of the specification, computed\<close>

text \<open>
  The sample long run through \<^verbatim>\<open>check_active_signals\<close>: first up to 1.1020 and then down
  to 1.0995 (closed at breakeven, no hypothetical exit, no impact), and straight down to
  1.0975 (closed as a loss of 20 pips on both legs).  And the scenario's trigger left
  alone for 130 minutes: the watcher marks it EXPIRED.
\<close>

lemmas eval_defs =
  check_active_signals_def check_exits_def check_breakeven_conditions_def
  breakeven_candidate_def active_trade_def breakeven_step_def outcome_step_def
  breakeven_price_def update_stop_loss_to_breakeven_def update_signal_with_hypothetical_def
  get_signal_def update_signal_def actual_outcome_def hypothetical_outcome_def
  effective_sl_def calculate_pips_def get_pip_multiplier_def upper_def upper_char_def
  gold_terms_def jpy_pairs_def py_round1_def round_half_even_def
  calculate_breakeven_impact_def truthy_int_def truthy_str_def minutes_between_def
  new_signal_def eurusd_buy_def single_feed_def Let_def

lemma scenario_breakeven_then_stopped:
  "map (\<lambda>r. (sig_status r, sig_result r, exit_price r, pnl_pips r, hypothetical_result r,
              breakeven_impact r))
     (check_active_signals 120 (single_feed ''EURUSD'' 1.0995)
        (check_active_signals 60 (single_feed ''EURUSD'' 1.1020) [new_signal 1 0 eurusd_buy]))
   = [(''CLOSED'', Some ''BREAKEVEN'', Some 1.1000, Some 0, None, Some ''NO_IMPACT'')]"
  by (simp add: eval_defs)

lemma scenario_straight_loss:
  "map (\<lambda>r. (sig_status r, sig_result r, exit_price r, pnl_pips r, hypothetical_result r,
              hypothetical_exit_price r, breakeven_impact r))
     (check_active_signals 60 (single_feed ''EURUSD'' 1.0975) [new_signal 1 0 eurusd_buy])
   = [(''CLOSED'', Some ''LOSS'', Some 1.0980, Some (- 20), Some ''LOSS'', Some 1.0980,
       Some ''NO_BREAKEVEN_USED'')]"
  by (simp add: eval_defs)

lemma scenario_expired_unevaluated:
  "map trg_status
     (process_pending_triggers (36000 + 60 * 130) (single_feed ''EURUSD'' 1.0835) failing_model
        (snd (save_trigger 0 36000 ''EURUSD'' (wait_with retest_trigger) [])))
   = [''EXPIRED'']"
  by (simp add: save_trigger_def wait_with_def retest_trigger_def next_trigger_id_def
        tf_minutes_def process_pending_triggers_def get_pending_triggers_def trigger_step_def
        mark_trigger_status_def marked_def)

end
